theory Spec2Isabelle
  imports Main "HOL-Library.Sublist"
begin

section \<open>JavaScript values\<close>

text \<open>
  The resolver of \<^verbatim>\<open>resolver_builder.ts\<close> works on untyped JavaScript data: GraphQL
  arguments, parsed JSON bodies, header maps. A value is one of the JSON shapes or
  \<^verbatim>\<open>undefined\<close>. An object is the list of its own properties in insertion order; an array
  carries its elements and, since an array is an object too, the named properties that
  were assigned to it. Numbers are restricted to the integers (status codes, the
  \<^verbatim>\<open>limit\<close> argument); functions are not values of the model.
\<close>

datatype val =
    VUndef
  | VNull
  | VBool bool
  | VNum int
  | VStr string
  | VArr "val list" "(string \<times> val) list"
  | VObj "(string \<times> val) list"

type_synonym props = "(string \<times> val) list"

text \<open>\<^verbatim>\<open>typeof v === 'object'\<close>: true of objects, arrays and \<^verbatim>\<open>null\<close>.\<close>

fun typeof_object :: "val \<Rightarrow> bool" where
  "typeof_object VNull = True"
| "typeof_object (VArr xs ps) = True"
| "typeof_object (VObj ps) = True"
| "typeof_object v = False"

text \<open>JavaScript truthiness (\<^verbatim>\<open>ToBoolean\<close>).\<close>

fun truthy :: "val \<Rightarrow> bool" where
  "truthy VUndef = False"
| "truthy VNull = False"
| "truthy (VBool b) = b"
| "truthy (VNum n) = (n \<noteq> 0)"
| "truthy (VStr s) = (s \<noteq> [])"
| "truthy (VArr xs ps) = True"
| "truthy (VObj ps) = True"

subsection \<open>Property access\<close>

text \<open>
  \<^verbatim>\<open>o[k]\<close> on a property list: the value of the first entry for \<open>k\<close>, \<^verbatim>\<open>undefined\<close>
  when there is none. \<^verbatim>\<open>k in o\<close> is \<open>has_key\<close> (own properties only: argument objects
  and parsed JSON have no other ones of interest). \<^verbatim>\<open>o[k] = v\<close> overwrites the entry in
  place or appends a new one.
\<close>

fun lookup :: "props \<Rightarrow> string \<Rightarrow> val" where
  "lookup [] k = VUndef"
| "lookup ((k', v) # ps) k = (if k' = k then v else lookup ps k)"

fun has_key :: "(string \<times> 'v) list \<Rightarrow> string \<Rightarrow> bool" where
  "has_key [] k = False"
| "has_key ((k', v) # ps) k = (k' = k \<or> has_key ps k)"

fun store :: "(string \<times> 'v) list \<Rightarrow> string \<Rightarrow> 'v \<Rightarrow> (string \<times> 'v) list" where
  "store [] k v = [(k, v)]"
| "store ((k', v') # ps) k v = (if k' = k then (k, v) # ps else (k', v') # store ps k v)"

text \<open>\<^verbatim>\<open>Object.assign(target, src)\<close>: every property of \<open>src\<close>, in order, is stored on the target.\<close>

fun assign :: "(string \<times> 'v) list \<Rightarrow> (string \<times> 'v) list \<Rightarrow> (string \<times> 'v) list" where
  "assign target [] = target"
| "assign target ((k, v) # src) = assign (store target k v) src"

subsection \<open>Errors\<close>

text \<open>
  Every \<^verbatim>\<open>throw\<close> of the resolver is a value. \<open>Error\<close> is \<^verbatim>\<open>new Error(message)\<close>;
  \<open>GraphQLError\<close> is the error built by \<^verbatim>\<open>graphQLErrorWithExtensions\<close>; \<open>TypeError\<close> and
  \<open>SyntaxError\<close> are the exceptions the JavaScript runtime raises by itself (property
  access on \<^verbatim>\<open>null\<close> or \<^verbatim>\<open>undefined\<close>, property creation on a primitive in strict
  mode, \<^verbatim>\<open>JSON.parse\<close> of a non-JSON text); \<open>Rejected\<close> is a failure of the transport.
\<close>

record extensions =
  ext_method :: string
  ext_path :: string
  ext_statusCode :: int
  ext_responseHeaders :: "(string \<times> string) list"
  ext_responseBody :: val

datatype error =
    Error string
  | GraphQLError string extensions
  | TypeError
  | SyntaxError
  | Rejected string

subsection \<open>Strings\<close>

text \<open>
  \<^verbatim>\<open>s.includes(t)\<close>: \<open>t\<close> occurs in \<open>s\<close> as a contiguous run. \<^verbatim>\<open>s.startsWith(t)\<close> is
  \<open>prefix t s\<close>.
\<close>

fun str_includes :: "string \<Rightarrow> string \<Rightarrow> bool" where
  "str_includes [] t = (t = [])"
| "str_includes (c # cs) t = (prefix t (c # cs) \<or> str_includes cs t)"

text \<open>The decimal digits of a natural number and \<^verbatim>\<open>String(n)\<close> of an integer.\<close>

fun digits :: "nat \<Rightarrow> string" where
  "digits n = (if n < 10 then [char_of (48 + n)] else digits (n div 10) @ [char_of (48 + n mod 10)])"

declare digits.simps [simp del]

definition show_int :: "int \<Rightarrow> string" where
  "show_int i = (if i < 0 then CHR ''-'' # digits (nat (- i)) else digits (nat i))"

fun join :: "string \<Rightarrow> string list \<Rightarrow> string" where
  "join sep [] = []"
| "join sep [s] = s"
| "join sep (s # t # ss) = s @ sep @ join sep (t # ss)"

text \<open>
  \<^verbatim>\<open>ToString(v)\<close>, as string concatenation, template literals and \<^verbatim>\<open>String.replace\<close>
  apply it: an array is its elements joined by commas (\<^verbatim>\<open>null\<close> and \<^verbatim>\<open>undefined\<close>
  elements as the empty string), an object is \<^verbatim>\<open>[object Object]\<close>.
\<close>

fun to_string :: "val \<Rightarrow> string" where
  "to_string VUndef = ''undefined''"
| "to_string VNull = ''null''"
| "to_string (VBool b) = (if b then ''true'' else ''false'')"
| "to_string (VNum n) = show_int n"
| "to_string (VStr s) = s"
| "to_string (VArr xs ps) =
     join '','' (map (\<lambda>x. case x of VUndef \<Rightarrow> [] | VNull \<Rightarrow> [] | _ \<Rightarrow> to_string x) xs)"
| "to_string (VObj ps) = ''[object Object]''"

text \<open>
  \<^verbatim>\<open>s.split(sep)[1]\<close>: the text between the first and the second occurrence of \<open>sep\<close>,
  \<^verbatim>\<open>undefined\<close> when \<open>sep\<close> does not occur. The resolver only splits on non-empty
  separators.
\<close>

fun until_sep :: "string \<Rightarrow> string \<Rightarrow> string" where
  "until_sep sep [] = []"
| "until_sep sep (c # cs) = (if prefix sep (c # cs) then [] else c # until_sep sep cs)"

fun split_second :: "string \<Rightarrow> string \<Rightarrow> string option" where
  "split_second sep [] = None"
| "split_second sep (c # cs) =
     (if prefix sep (c # cs) then Some (until_sep sep (drop (length sep) (c # cs)))
      else split_second sep cs)"

text \<open>
  \<^verbatim>\<open>s.replace(pattern, replacement)\<close> with a string pattern: the first occurrence of the
  pattern is replaced, and the replacement text is a template in which \<^verbatim>\<open>$$\<close> stands
  for a dollar sign, \<^verbatim>\<open>$&\<close> for the matched text, \<^verbatim>\<open>$\<close> followed by a backquote for
  the text before the match and \<^verbatim>\<open>$'\<close> for the text after it (\<^verbatim>\<open>GetSubstitution\<close>; a
  string pattern has no capture groups, so \<^verbatim>\<open>$1\<close> stays as it is). A replacement that
  is not a string is converted by \<^verbatim>\<open>ToString\<close> first.
\<close>

fun get_substitution :: "string \<Rightarrow> string \<Rightarrow> string \<Rightarrow> string \<Rightarrow> string" where
  "get_substitution matched pre post [] = []"
| "get_substitution matched pre post [c] = [c]"
| "get_substitution matched pre post (c # d # cs) =
     (if c = CHR ''$'' \<and> d = CHR ''$'' then CHR ''$'' # get_substitution matched pre post cs
      else if c = CHR ''$'' \<and> d = CHR ''&'' then matched @ get_substitution matched pre post cs
      else if c = CHR ''$'' \<and> d = CHR 0x60 then pre @ get_substitution matched pre post cs
      else if c = CHR ''$'' \<and> d = CHR 0x27 then post @ get_substitution matched pre post cs
      else c # get_substitution matched pre post (d # cs))"

fun replace_from :: "string \<Rightarrow> string \<Rightarrow> string \<Rightarrow> string \<Rightarrow> string" where
  "replace_from pre [] pat repl =
     (if pat = [] then pre @ get_substitution [] pre [] repl else pre)"
| "replace_from pre (c # cs) pat repl =
     (if prefix pat (c # cs)
      then pre @ get_substitution pat pre (drop (length pat) (c # cs)) repl
             @ drop (length pat) (c # cs)
      else replace_from (pre @ [c]) cs pat repl)"

definition str_replace :: "string \<Rightarrow> string \<Rightarrow> val \<Rightarrow> string" where
  "str_replace s pat repl = replace_from [] s pat (to_string repl)"

text \<open>
  \<^verbatim>\<open>value.match(/{([^}]*)}/g)\<close>: the braced groups of a text, left to right. A group
  starts at an opening brace and ends at the next closing brace; an opening brace that
  no closing brace follows starts no group.
\<close>

function match_braces :: "string \<Rightarrow> string list" where
  "match_braces [] = []"
| "match_braces (c # cs) =
     (if c = CHR ''{'' \<and> CHR ''}'' \<in> set cs
      then (c # takeWhile (\<lambda>x. x \<noteq> CHR ''}'') cs @ ''}'')
             # match_braces (drop 1 (dropWhile (\<lambda>x. x \<noteq> CHR ''}'') cs))
      else match_braces cs)"
  by pat_completeness auto
termination
proof (relation "measure length")
  fix c :: char and cs :: string
  have "length (dropWhile (\<lambda>x. x \<noteq> CHR ''}'') cs) \<le> length cs"
    by (rule length_dropWhile_le)
  then show "(drop 1 (dropWhile (\<lambda>x. x \<noteq> CHR ''}'') cs), c # cs) \<in> measure length"
    by simp
qed simp_all

section \<open>JSON copies\<close>

text \<open>
  \<^verbatim>\<open>JSON.parse(JSON.stringify(v))\<close> on a value other than \<^verbatim>\<open>undefined\<close>: a property
  whose value is \<^verbatim>\<open>undefined\<close> is dropped, an \<^verbatim>\<open>undefined\<close> array element becomes
  \<^verbatim>\<open>null\<close>, the named properties of an array are dropped. \<^verbatim>\<open>JSON.stringify(undefined)\<close>
  is \<^verbatim>\<open>undefined\<close>, which \<^verbatim>\<open>JSON.parse\<close> rejects with a \<^verbatim>\<open>SyntaxError\<close>.
\<close>

fun json_clone :: "val \<Rightarrow> val"
  and clone_elems :: "val list \<Rightarrow> val list"
  and clone_props :: "props \<Rightarrow> props" where
  "json_clone (VArr xs ps) = VArr (clone_elems xs) []"
| "json_clone (VObj ps) = VObj (clone_props ps)"
| "json_clone v = v"
| "clone_elems [] = []"
| "clone_elems (x # xs) = (if x = VUndef then VNull else json_clone x) # clone_elems xs"
| "clone_props [] = []"
| "clone_props ((k, v) # ps) =
     (if v = VUndef then clone_props ps else (k, json_clone v) # clone_props ps)"

text \<open>
  JSON data: the values \<^verbatim>\<open>JSON.parse\<close> produces. They hold no \<^verbatim>\<open>undefined\<close> and their
  arrays have no named properties.
\<close>

fun json_data :: "val \<Rightarrow> bool"
  and json_elems :: "val list \<Rightarrow> bool"
  and json_props :: "props \<Rightarrow> bool" where
  "json_data VUndef = False"
| "json_data (VArr xs ps) = (ps = [] \<and> json_elems xs)"
| "json_data (VObj ps) = json_props ps"
| "json_data v = True"
| "json_elems [] = True"
| "json_elems (x # xs) = (json_data x \<and> json_elems xs)"
| "json_props [] = True"
| "json_props ((k, v) # ps) = (json_data v \<and> json_props ps)"

definition json_copy :: "val \<Rightarrow> error + val" where
  "json_copy v = (if v = VUndef then Inl SyntaxError else Inr (json_clone v))"

section \<open>Generic property access on values\<close>

text \<open>
  The own enumerable properties of a value, as \<^verbatim>\<open>Object.assign\<close> copies them from a
  source: those of an object; the elements of an array under their indices, then its
  named properties; the characters of a string under their indices; none of \<^verbatim>\<open>null\<close>,
  \<^verbatim>\<open>undefined\<close>, a number or a boolean.
\<close>

fun index_from :: "nat \<Rightarrow> 'v list \<Rightarrow> (string \<times> 'v) list" where
  "index_from i [] = []"
| "index_from i (x # xs) = (digits i, x) # index_from (Suc i) xs"

fun own_props :: "val \<Rightarrow> props" where
  "own_props (VObj ps) = ps"
| "own_props (VArr xs ps) = index_from 0 xs @ ps"
| "own_props (VStr s) = index_from 0 (map (\<lambda>c. VStr [c]) s)"
| "own_props v = []"

text \<open>
  \<^verbatim>\<open>v[k]\<close> and \<^verbatim>\<open>v[k] = w\<close> on an arbitrary value. Reading a property of \<^verbatim>\<open>null\<close> or
  \<^verbatim>\<open>undefined\<close> is a \<^verbatim>\<open>TypeError\<close>; a number or a boolean has no property the resolver
  reads. The module is strict-mode code, so writing a property of a primitive is a
  \<^verbatim>\<open>TypeError\<close> as well. The keys the resolver writes on arrays are never indices.
\<close>

fun get_prop :: "val \<Rightarrow> string \<Rightarrow> error + val" where
  "get_prop VUndef k = Inl TypeError"
| "get_prop VNull k = Inl TypeError"
| "get_prop (VObj ps) k = Inr (lookup ps k)"
| "get_prop (VArr xs ps) k =
     Inr (if k = ''length'' then VNum (int (length xs)) else lookup (own_props (VArr xs ps)) k)"
| "get_prop (VStr s) k =
     Inr (if k = ''length'' then VNum (int (length s)) else lookup (own_props (VStr s)) k)"
| "get_prop v k = Inr VUndef"

fun set_prop :: "val \<Rightarrow> string \<Rightarrow> val \<Rightarrow> error + val" where
  "set_prop (VObj ps) k w = Inr (VObj (store ps k w))"
| "set_prop (VArr xs ps) k w = Inr (VArr xs (store ps k w))"
| "set_prop v k w = Inl TypeError"

text \<open>\<^verbatim>\<open>k in v\<close>: a \<^verbatim>\<open>TypeError\<close> unless \<open>v\<close> is an object or an array.\<close>

fun in_val :: "string \<Rightarrow> val \<Rightarrow> error + bool" where
  "in_val k (VObj ps) = Inr (has_key ps k)"
| "in_val k (VArr xs ps) = Inr (k = ''length'' \<or> has_key (own_props (VArr xs ps)) k)"
| "in_val k v = Inl TypeError"

text \<open>
  \<^verbatim>\<open>Object.assign(target, src)\<close> on values: the object the call returns. A \<^verbatim>\<open>null\<close> or
  \<^verbatim>\<open>undefined\<close> target is a \<^verbatim>\<open>TypeError\<close>; a primitive target is wrapped in a fresh
  object, which receives the properties. \<open>assigned_in_place\<close> is the target itself after
  the call: the object that was assigned to, or the primitive, which nothing changed.
\<close>

fun object_assign :: "val \<Rightarrow> val \<Rightarrow> error + val" where
  "object_assign VUndef src = Inl TypeError"
| "object_assign VNull src = Inl TypeError"
| "object_assign (VObj ps) src = Inr (VObj (assign ps (own_props src)))"
| "object_assign (VArr xs ps) src = Inr (VArr xs (assign ps (own_props src)))"
| "object_assign v src = Inr (VObj (assign (own_props v) (own_props src)))"

fun assigned_in_place :: "val \<Rightarrow> val \<Rightarrow> error + val" where
  "assigned_in_place VUndef src = Inl TypeError"
| "assigned_in_place VNull src = Inl TypeError"
| "assigned_in_place (VObj ps) src = Inr (VObj (assign ps (own_props src)))"
| "assigned_in_place (VArr xs ps) src = Inr (VArr xs (assign ps (own_props src)))"
| "assigned_in_place v src = Inr v"

section \<open>The data of the resolver\<close>

text \<open>
  The fields of \<^verbatim>\<open>Operation\<close>, \<^verbatim>\<open>ParameterObject\<close>, the options of
  \<^verbatim>\<open>PreprocessingData\<close> and the security schemes that \<^verbatim>\<open>getResolver\<close> reads. An optional
  field is an \<open>option\<close>. Of a parameter's schema only \<^verbatim>\<open>default\<close> is read (\<^verbatim>\<open>undefined\<close>
  when the schema declares none); a schema is given inline or by \<^verbatim>\<open>$ref\<close>.
\<close>

datatype case_style = camelCase | simple

record schema_object =
  schema_default :: val

datatype schema_or_ref = Ref string | Inline schema_object

record parameter =
  param_name :: string
  param_in :: string
  param_schema :: "schema_or_ref option"

record operation =
  op_method :: string
  op_path :: string
  op_title :: string
  operationString :: string
  parameters :: "parameter list"
  payloadContentType :: "string option"
  responseContentType :: "string option"
  statusCode :: string
  securityRequirements :: "string list"

record security_def =
  sec_type :: string
  sec_in :: "string option"
  sec_name :: "string option"
  sec_scheme :: "string option"

text \<open>
  \<^verbatim>\<open>info.path\<close> is the chain of response keys from the resolved field back to the root:
  the head of the list is \<^verbatim>\<open>path.key\<close>, the tail is \<^verbatim>\<open>path.prev\<close>; the empty list is an
  \<^verbatim>\<open>undefined\<close> path. A key is a field name (or alias) or a list index.
\<close>

datatype path_key = Field string | Index nat

type_synonym path = "path_key list"

text \<open>
  A resolver takes the parent result, the arguments, the context and the path, and its
  promise settles with a value or an error.
\<close>

type_synonym resolver = "val \<Rightarrow> props \<Rightarrow> val \<Rightarrow> path \<Rightarrow> error + val"

record options =
  simpleNames :: bool
  genericPayloadArgName :: bool
  opt_headers :: "props option"
  opt_qs :: "props option"
  sendOAuthTokenInQuery :: bool
  tokenJSONpath :: "string option"
  provideErrorExtensions :: bool
  addLimitArgument :: bool
  customResolvers :: "string \<Rightarrow> string \<Rightarrow> string \<Rightarrow> resolver option"

text \<open>
  \<^verbatim>\<open>RequestOptions\<close> of \<^verbatim>\<open>types/request.ts\<close>: as the caller may give them in part
  (\<open>request_options\<close>), and as the resolver hands them to the transport (\<open>request\<close>, with
  method, url, headers and query string always set). \<^verbatim>\<open>Response\<close> is what the transport
  returns; header values and the body are strings, as \<^verbatim>\<open>httpRequest\<close> produces them.
\<close>

record request_options =
  ro_headers :: "props option"
  ro_body :: val
  ro_qs :: "props option"
  ro_baseUrl :: "string option"

record request =
  req_method :: string
  req_url :: string
  req_headers :: props
  req_qs :: props
  req_body :: val
  req_baseUrl :: "string option"

record response =
  res_statusCode :: int
  res_headers :: "(string \<times> string) list"
  res_body :: string

text \<open>
  What the resolver calls and this file does not hold: the helpers of \<^verbatim>\<open>oas_3_tools\<close>,
  the libraries (\<^verbatim>\<open>JSON\<close>, \<^verbatim>\<open>jsonpath-plus\<close>, \<^verbatim>\<open>form-urlencoded\<close>, \<^verbatim>\<open>Buffer\<close>) and the
  transport. They are parameters of the model. \<open>resolveRef\<close> is
  \<^verbatim>\<open>Oas3Tools.resolveRef(ref, operation.oas)\<close>; \<open>desanitizeObjectKeys\<close> is taken at
  \<^verbatim>\<open>data.saneMap\<close>; \<open>json_parse\<close> is \<open>None\<close> where \<^verbatim>\<open>JSON.parse\<close> throws; \<open>JSONPath\<close>
  takes the path (a string or \<^verbatim>\<open>undefined\<close>) and the document; \<open>toNumber\<close> is
  \<^verbatim>\<open>ToNumber\<close> on the values that are not numbers (\<open>None\<close> for \<^verbatim>\<open>NaN\<close>); \<open>security\<close> is
  \<^verbatim>\<open>data.security[name].def\<close>.
\<close>

record deps =
  sanitize :: "string \<Rightarrow> case_style \<Rightarrow> string"
  resolveRef :: "string \<Rightarrow> schema_object option"
  getBaseUrl :: "operation \<Rightarrow> string"
  sanitizeObjectKeys :: "val \<Rightarrow> case_style \<Rightarrow> val"
  desanitizeObjectKeys :: "val \<Rightarrow> val"
  json_stringify :: "val \<Rightarrow> val"
  json_parse :: "string \<Rightarrow> val option"
  toNumber :: "val \<Rightarrow> int option"
  formurlencoded :: "val \<Rightarrow> val"
  JSONPath :: "val \<Rightarrow> val \<Rightarrow> val"
  base64 :: "string \<Rightarrow> string"
  security :: "string \<Rightarrow> security_def option"
  httpRequest :: "request \<Rightarrow> val \<Rightarrow> error + response"

definition OPENAPI_TO_GRAPHQL :: string where
  "OPENAPI_TO_GRAPHQL = ''_openAPIToGraphQL''"

text \<open>
  Modelled from the spec: \<^verbatim>\<open>Oas3Tools.HTTP_METHODS.get\<close>, a constant of \<^verbatim>\<open>oas_3_tools\<close>; the
  spec's "HTTP GET" against the lower-case method names of an OpenAPI document.
\<close>

definition HTTP_METHODS_get :: string where
  "HTTP_METHODS_get = ''get''"

text \<open>The case style every call of \<^verbatim>\<open>Oas3Tools.sanitize\<close> on a parameter name passes.\<close>

definition style :: "options \<Rightarrow> case_style" where
  "style opts = (if \<not> simpleNames opts then camelCase else simple)"

text \<open>Sequencing of steps that may throw.\<close>

fun bind :: "error + 'a \<Rightarrow> ('a \<Rightarrow> error + 'b) \<Rightarrow> error + 'b" where
  "bind (Inl e) f = Inl e"
| "bind (Inr x) f = f x"

section \<open>Identifiers of a field\<close>

text \<open>
  \<^verbatim>\<open>isNaN(parseInt(key))\<close>: \<^verbatim>\<open>parseInt\<close> skips leading white space and a sign and then
  needs a digit (a hexadecimal digit after \<^verbatim>\<open>0x\<close>). A list index is a number.
\<close>

definition is_space :: "char \<Rightarrow> bool" where
  "is_space c = (c \<in> set [CHR '' '', CHR 0x09, CHR 0x0A, CHR 0x0B, CHR 0x0C, CHR 0x0D])"

definition is_digit :: "char \<Rightarrow> bool" where
  "is_digit c = (c \<in> set ''0123456789'')"

definition is_hex_digit :: "char \<Rightarrow> bool" where
  "is_hex_digit c =
     (is_digit c \<or> c \<in> set ''abcdefABCDEF'')"

fun digits_nan :: "string \<Rightarrow> bool" where
  "digits_nan (a # b # cs) =
     (if a = CHR ''0'' \<and> (b = CHR ''x'' \<or> b = CHR ''X'')
      then (case cs of [] \<Rightarrow> True | c # _ \<Rightarrow> \<not> is_hex_digit c)
      else \<not> is_digit a)"
| "digits_nan [a] = (\<not> is_digit a)"
| "digits_nan [] = True"

definition parseInt_nan :: "string \<Rightarrow> bool" where
  "parseInt_nan s =
     (case dropWhile is_space s of
        [] \<Rightarrow> True
      | c # cs \<Rightarrow> if c = CHR ''+'' \<or> c = CHR ''-'' then digits_nan cs else digits_nan (c # cs))"

fun key_nan :: "path_key \<Rightarrow> bool" where
  "key_nan (Field s) = parseInt_nan s"
| "key_nan (Index n) = False"

fun key_string :: "path_key \<Rightarrow> string" where
  "key_string (Field s) = s"
| "key_string (Index n) = digits n"

fun getIdentifierRecursive :: "path \<Rightarrow> error + string" where
  "getIdentifierRecursive [] = Inl TypeError"
| "getIdentifierRecursive [k] = Inr (key_string k)"
| "getIdentifierRecursive (k # p) =
     (if key_nan k
      then bind (getIdentifierRecursive p) (\<lambda>r. Inr (key_string k @ ''/'' @ r))
      else getIdentifierRecursive p)"

definition getIdentifier :: "path \<Rightarrow> error + string" where
  "getIdentifier info = getIdentifierRecursive info"

definition getParentIdentifier :: "path \<Rightarrow> error + string" where
  "getParentIdentifier info = getIdentifierRecursive (tl info)"

section \<open>Runtime expressions\<close>

definition RUNTIME_REFERENCES :: "string list" where
  "RUNTIME_REFERENCES = [''header.'', ''query.'', ''path.'', ''body'']"

definition isRuntimeExpression :: "string \<Rightarrow> bool" where
  "isRuntimeExpression str =
     (if str = ''$url'' \<or> str = ''$method'' \<or> str = ''$statusCode'' then True
      else if prefix ''$request.'' str
      then list_ex (\<lambda>r. prefix (''$request.'' @ r) str) RUNTIME_REFERENCES
      else if prefix ''$response.'' str
      then list_ex (\<lambda>r. prefix (''$response.'' @ r) str) RUNTIME_REFERENCES
      else False)"

definition quoted :: "string \<Rightarrow> string" where
  "quoted s = CHR 0x27 # s @ [CHR 0x27]"

definition invalid_expression :: "string \<Rightarrow> error" where
  "invalid_expression value =
     Error (''Cannot create link because '' @ quoted value @ '' is an invalid runtime expression.'')"

text \<open>
  \<^verbatim>\<open>Array.isArray(tokens) && tokens.length > 0\<close>, and then \<^verbatim>\<open>tokens[0]\<close>. Where the test
  fails the resolver logs a warning and runs on to the \<^verbatim>\<open>throw\<close> that ends
  \<^verbatim>\<open>resolveRuntimeExpression\<close>.
\<close>

fun first_token :: "val \<Rightarrow> val option" where
  "first_token (VArr (t # ts) ps) = Some t"
| "first_token v = None"

definition split_val :: "string \<Rightarrow> string \<Rightarrow> val" where
  "split_val sep value = (case split_second sep value of None \<Rightarrow> VUndef | Some s \<Rightarrow> VStr s)"

text \<open>
  \<^verbatim>\<open>resolveData.usedParams[Oas3Tools.sanitize(value.split(sep)[1], camelCase)]\<close>.
  \<^verbatim>\<open>sanitize\<close> is a function on strings; where the split has no second part it is applied
  to \<^verbatim>\<open>undefined\<close>, which the model takes as a \<^verbatim>\<open>TypeError\<close>.
\<close>

definition used_param :: "deps \<Rightarrow> val \<Rightarrow> string \<Rightarrow> string \<Rightarrow> error + val" where
  "used_param D resolveData sep value =
     (case split_second sep value of
        None \<Rightarrow> Inl TypeError
      | Some name \<Rightarrow>
          bind (get_prop resolveData ''usedParams'')
            (\<lambda>usedParams. get_prop usedParams (sanitize D name camelCase)))"

definition header_of :: "val \<Rightarrow> string \<Rightarrow> error + val" where
  "header_of headers value = get_prop headers (to_string (split_val ''header.'' value))"

definition resolveRuntimeExpression ::
  "deps \<Rightarrow> string \<Rightarrow> string \<Rightarrow> val \<Rightarrow> val \<Rightarrow> props \<Rightarrow> error + val" where
  "resolveRuntimeExpression D paramName value resolveData root args =
     (if value = ''$url''
      then bind (get_prop resolveData ''usedRequestOptions'') (\<lambda>used. get_prop used ''url'')
      else if value = ''$method''
      then bind (get_prop resolveData ''usedRequestOptions'') (\<lambda>used. get_prop used ''method'')
      else if value = ''$statusCode'' then get_prop resolveData ''usedStatusCode''
      else if prefix ''$request.'' value then
        (if value = ''$request.body'' then get_prop resolveData ''usedPayload''
         else if prefix ''$request.body#'' value then
           bind (get_prop resolveData ''usedPayload'')
             (\<lambda>usedPayload.
                case first_token (JSONPath D (split_val ''body#/'' value) usedPayload) of
                  Some t \<Rightarrow> Inr t
                | None \<Rightarrow> Inl (invalid_expression value))
         else if prefix ''$request.query'' value then used_param D resolveData ''query.'' value
         else if prefix ''$request.path'' value then used_param D resolveData ''path.'' value
         else if prefix ''$request.header'' value then
           bind (get_prop resolveData ''usedRequestOptions'')
             (\<lambda>used. bind (get_prop used ''headers'') (\<lambda>headers. header_of headers value))
         else Inl (invalid_expression value))
      else if prefix ''$response.'' value then
        (if value = ''$response.body''
         then bind (json_copy root) (\<lambda>result. set_prop result OPENAPI_TO_GRAPHQL VUndef)
         else if prefix ''$response.body#'' value then
           (case first_token (JSONPath D (split_val ''body#/'' value) root) of
              Some t \<Rightarrow> Inr t
            | None \<Rightarrow> Inl (invalid_expression value))
         else if prefix ''$response.query'' value then used_param D resolveData ''query.'' value
         else if prefix ''$response.path'' value then used_param D resolveData ''path.'' value
         else if prefix ''$response.header'' value then
           bind (get_prop resolveData ''responseHeaders'') (\<lambda>headers. header_of headers value)
         else Inl (invalid_expression value))
      else Inl (invalid_expression value))"

section \<open>The steps of the resolver before the request\<close>

subsection \<open>The record of the parent\<close>

text \<open>
  The first block of the resolve function: where the parent result carries
  \<^verbatim>\<open>_openAPIToGraphQL.data\<close> and that holds a record under the parent's identifier,
  \<^verbatim>\<open>resolveData\<close> is the JSON copy of the record; otherwise it is a fresh empty object.
\<close>

definition recover_resolveData :: "val \<Rightarrow> path \<Rightarrow> error + val" where
  "recover_resolveData source info =
     (if truthy source \<and> typeof_object source then
        bind (get_prop source OPENAPI_TO_GRAPHQL)
          (\<lambda>root.
             if typeof_object root then
               bind (get_prop root ''data'')
                 (\<lambda>data.
                    if typeof_object data then
                      bind (getParentIdentifier info)
                        (\<lambda>parentIdentifier.
                           if parentIdentifier \<noteq> [] then
                             bind (in_val parentIdentifier data)
                               (\<lambda>present.
                                  if present
                                  then bind (get_prop data parentIdentifier) json_copy
                                  else Inr (VObj []))
                           else Inr (VObj []))
                    else Inr (VObj []))
             else Inr (VObj []))
      else Inr (VObj []))"

definition ensure_usedParams :: "val \<Rightarrow> error + val" where
  "ensure_usedParams resolveData =
     bind (get_prop resolveData ''usedParams'')
       (\<lambda>usedParams.
          if usedParams = VUndef then set_prop resolveData ''usedParams'' (VObj [])
          else Inr resolveData)"

subsection \<open>Default values\<close>

text \<open>
  \<^verbatim>\<open>operation.parameters.forEach\<close>: a parameter whose sanitized name has no defined
  argument gets the default of its schema, under the test
  \<^verbatim>\<open>schema && schema.default && typeof schema.default !== 'undefined'\<close>
  (\<open>injected_default\<close> is the default that passes the test).
\<close>

definition schema_of :: "deps \<Rightarrow> schema_or_ref \<Rightarrow> schema_object option" where
  "schema_of D schemaOrRef = (case schemaOrRef of Ref r \<Rightarrow> resolveRef D r | Inline sch \<Rightarrow> Some sch)"

definition injected_default :: "deps \<Rightarrow> parameter \<Rightarrow> val option" where
  "injected_default D param =
     (case param_schema param of
        None \<Rightarrow> None
      | Some schemaOrRef \<Rightarrow>
          (case schema_of D schemaOrRef of
             None \<Rightarrow> None
           | Some schema \<Rightarrow>
               if truthy (schema_default schema) \<and> schema_default schema \<noteq> VUndef
               then Some (schema_default schema)
               else None))"

definition fill_default :: "deps \<Rightarrow> options \<Rightarrow> parameter \<Rightarrow> props \<Rightarrow> props" where
  "fill_default D opts param args =
     (let saneParamName = sanitize D (param_name param) (style opts) in
      if lookup args saneParamName = VUndef then
        (case injected_default D param of
           Some default_value \<Rightarrow> store args saneParamName default_value
         | None \<Rightarrow> args)
      else args)"

fun fill_defaults :: "deps \<Rightarrow> options \<Rightarrow> parameter list \<Rightarrow> props \<Rightarrow> props" where
  "fill_defaults D opts [] args = args"
| "fill_defaults D opts (param # rest) args =
     fill_defaults D opts rest (fill_default D opts param args)"

subsection \<open>Arguments provided by links\<close>

fun replace_links ::
  "deps \<Rightarrow> string \<Rightarrow> val \<Rightarrow> val \<Rightarrow> props \<Rightarrow> string list \<Rightarrow> string \<Rightarrow> error + string" where
  "replace_links D paramName resolveData source args [] value = Inr value"
| "replace_links D paramName resolveData source args (linkParam # rest) value =
     bind (resolveRuntimeExpression D paramName (butlast (tl linkParam)) resolveData source args)
       (\<lambda>r. replace_links D paramName resolveData source args rest
               (str_replace value linkParam r))"

text \<open>
  The value of one link parameter. \<^verbatim>\<open>value.search(/{|}/) === -1\<close> is the absence of
  both braces. With a brace and no braced group \<^verbatim>\<open>value.match\<close> is \<^verbatim>\<open>null\<close>, and
  \<^verbatim>\<open>linkParams.forEach\<close> is a \<^verbatim>\<open>TypeError\<close>.
\<close>

definition link_value :: "deps \<Rightarrow> string \<Rightarrow> string \<Rightarrow> val \<Rightarrow> val \<Rightarrow> props \<Rightarrow> error + val" where
  "link_value D paramName value resolveData source args =
     (if CHR ''{'' \<notin> set value \<and> CHR ''}'' \<notin> set value then
        (if isRuntimeExpression value
         then resolveRuntimeExpression D paramName value resolveData source args
         else Inr (VStr value))
      else
        (case match_braces value of
           [] \<Rightarrow> Inl TypeError
         | linkParam # rest \<Rightarrow>
             bind (replace_links D paramName resolveData source args (linkParam # rest) value)
               (\<lambda>v. Inr (VStr v))))"

fun resolve_links ::
  "deps \<Rightarrow> options \<Rightarrow> (string \<times> string) list \<Rightarrow> val \<Rightarrow> val \<Rightarrow> props \<Rightarrow> error + props" where
  "resolve_links D opts [] resolveData source args = Inr args"
| "resolve_links D opts ((paramName, value) # rest) resolveData source args =
     bind (link_value D paramName value resolveData source args)
       (\<lambda>v. resolve_links D opts rest resolveData source
               (store args (sanitize D paramName (style opts)) v))"

definition record_usedParams :: "val \<Rightarrow> props \<Rightarrow> error + val" where
  "record_usedParams resolveData args =
     bind (get_prop resolveData ''usedParams'')
       (\<lambda>usedParams.
          bind (object_assign usedParams (VObj args))
            (\<lambda>assigned. set_prop resolveData ''usedParams'' assigned))"

subsection \<open>Request construction\<close>

text \<open>
  \<^verbatim>\<open>extractRequestDataFromArgs\<close>: the loop over the parameters, threading the path, the
  query string and the headers. In the source the last argument is \<^verbatim>\<open>data\<close>, of which
  only the options are read.
\<close>

definition extract_param ::
  "deps \<Rightarrow> options \<Rightarrow> parameter \<Rightarrow> props \<Rightarrow> string \<times> props \<times> props \<Rightarrow> string \<times> props \<times> props" where
  "extract_param D opts param args acc =
     (case acc of (path, qs, headers) \<Rightarrow>
        (let saneParamName = sanitize D (param_name param) (style opts) in
         if saneParamName \<noteq> [] \<and> has_key args saneParamName then
           (if param_in param = ''path''
            then (str_replace path (''{'' @ param_name param @ ''}'') (lookup args saneParamName),
                  qs, headers)
            else if param_in param = ''query''
            then (path, store qs (param_name param) (lookup args saneParamName), headers)
            else if param_in param = ''header''
            then (path, qs, store headers (param_name param) (lookup args saneParamName))
            else if param_in param = ''cookie''
            then (let headers' =
                        (if \<not> has_key headers ''cookie'' then store headers ''cookie'' (VStr [])
                         else headers)
                  in (path, qs,
                      store headers' ''cookie''
                        (VStr (to_string (lookup headers' ''cookie'') @ param_name param @ ''=''
                                 @ to_string (lookup args saneParamName) @ ''; ''))))
            else (path, qs, headers))
         else (path, qs, headers)))"

fun extract_loop ::
  "deps \<Rightarrow> options \<Rightarrow> parameter list \<Rightarrow> props \<Rightarrow> string \<times> props \<times> props \<Rightarrow> string \<times> props \<times> props" where
  "extract_loop D opts [] args acc = acc"
| "extract_loop D opts (param # rest) args acc =
     extract_loop D opts rest args (extract_param D opts param args acc)"

definition extractRequestDataFromArgs ::
  "deps \<Rightarrow> string \<Rightarrow> parameter list \<Rightarrow> props \<Rightarrow> options \<Rightarrow> string \<times> props \<times> props" where
  "extractRequestDataFromArgs D path params args opts = extract_loop D opts params args (path, [], [])"

text \<open>
  The two assignments that follow the comment "The Content-Type and Accept property
  should not be changed because the object type has already been created".
\<close>

definition content_headers :: "operation \<Rightarrow> props \<Rightarrow> props" where
  "content_headers operation headers =
     store
       (if op_method operation \<noteq> HTTP_METHODS_get
        then store headers ''content-type''
               (VStr (case payloadContentType operation of
                        Some t \<Rightarrow> t | None \<Rightarrow> ''application/json''))
        else headers)
       ''accept''
       (VStr (case responseContentType operation of
                Some t \<Rightarrow> t | None \<Rightarrow> ''application/json''))"

text \<open>
  \<^verbatim>\<open>options\<close>: with \<^verbatim>\<open>requestOptions\<close>, its fields are spread, method and url are
  overwritten, and headers and query string start empty and receive first the
  resolver's, then the caller's (\<^verbatim>\<open>Object.assign(options.headers, headers,
  requestOptions.headers)\<close>).
\<close>

definition build_options ::
  "operation \<Rightarrow> request_options option \<Rightarrow> string \<Rightarrow> props \<Rightarrow> props \<Rightarrow> request" where
  "build_options operation requestOptions url headers qs =
     (case requestOptions of
        Some ro \<Rightarrow>
          \<lparr> req_method = op_method operation, req_url = url,
            req_headers =
              (case ro_headers ro of Some h \<Rightarrow> assign (assign [] headers) h | None \<Rightarrow> headers),
            req_qs = (case ro_qs ro of Some q \<Rightarrow> assign (assign [] qs) q | None \<Rightarrow> qs),
            req_body = ro_body ro, req_baseUrl = ro_baseUrl ro \<rparr>
      | None \<Rightarrow>
          \<lparr> req_method = op_method operation, req_url = url, req_headers = headers,
            req_qs = qs, req_body = VUndef, req_baseUrl = None \<rparr>)"

subsection \<open>Payload\<close>

definition raw_payload :: "deps \<Rightarrow> options \<Rightarrow> operation \<Rightarrow> string \<Rightarrow> props \<Rightarrow> val" where
  "raw_payload D opts operation payloadName args =
     (let sanePayloadName =
            (if genericPayloadArgName opts then ''requestBody''
             else sanitize D payloadName camelCase)
      in if payloadContentType operation = Some ''application/json''
         then json_stringify D (desanitizeObjectKeys D (lookup args sanePayloadName))
         else if payloadContentType operation = Some ''application/x-www-form-urlencoded''
         then formurlencoded D (desanitizeObjectKeys D (lookup args sanePayloadName))
         else lookup args sanePayloadName)"

subsection \<open>Authentication\<close>

record auth_options =
  authHeaders :: props
  authQs :: props
  authCookie :: "string option"

definition no_auth :: auth_options where
  "no_auth = \<lparr> authHeaders = [], authQs = [], authCookie = None \<rparr>"

text \<open>
  The loop of \<^verbatim>\<open>getAuthReqAndProtcolName\<close>: the first security requirement for which
  \<^verbatim>\<open>_openAPIToGraphQL.security\<close> holds an object, with its sanitized name.
\<close>

fun find_requirement :: "deps \<Rightarrow> val \<Rightarrow> string list \<Rightarrow> error + (string \<times> string) option" where
  "find_requirement D root [] = Inr None"
| "find_requirement D root (securityRequirement # rest) =
     bind (get_prop root ''security'')
       (\<lambda>sec.
          bind (get_prop sec (sanitize D securityRequirement camelCase))
            (\<lambda>credentials.
               if typeof_object credentials
               then Inr (Some (securityRequirement, sanitize D securityRequirement camelCase))
               else find_requirement D root rest))"

definition credential :: "val \<Rightarrow> string \<Rightarrow> string \<Rightarrow> error + val" where
  "credential root sanitizedSecurityRequirement field =
     bind (get_prop root ''security'')
       (\<lambda>sec.
          bind (get_prop sec sanitizedSecurityRequirement)
            (\<lambda>credentials. get_prop credentials field))"

definition opt_val :: "string option \<Rightarrow> val" where
  "opt_val s = (case s of None \<Rightarrow> VUndef | Some t \<Rightarrow> VStr t)"

definition api_key_auth :: "deps \<Rightarrow> security_def \<Rightarrow> val \<Rightarrow> error + auth_options" where
  "api_key_auth D def apiKey =
     (case sec_in def of
        None \<Rightarrow> Inr no_auth
      | Some loc \<Rightarrow>
          (case sec_name def of
             None \<Rightarrow>
               Inl (Error (''Cannot send API key in ''
                             @ quoted (to_string (json_stringify D (VStr loc)))))
           | Some name \<Rightarrow>
               if loc = ''header'' then Inr (no_auth \<lparr> authHeaders := [(name, apiKey)] \<rparr>)
               else if loc = ''query'' then Inr (no_auth \<lparr> authQs := [(name, apiKey)] \<rparr>)
               else if loc = ''cookie''
               then Inr (no_auth \<lparr> authCookie := Some (name @ ''='' @ to_string apiKey) \<rparr>)
               else Inr no_auth))"

definition getAuthOptions :: "deps \<Rightarrow> operation \<Rightarrow> val \<Rightarrow> error + auth_options" where
  "getAuthOptions D operation root =
     (if securityRequirements operation = [] then Inr no_auth
      else
        bind (find_requirement D root (securityRequirements operation))
          (\<lambda>found.
             case found of
               None \<Rightarrow> Inl (Error ''Missing information to authenticate API request.'')
             | Some (securityRequirement, sanitized) \<Rightarrow>
                 (case security D securityRequirement of
                    None \<Rightarrow> Inl TypeError
                  | Some def \<Rightarrow>
                      if sec_type def = ''apiKey''
                      then bind (credential root sanitized ''apiKey'') (api_key_auth D def)
                      else if sec_type def = ''http'' then
                        (if sec_scheme def = Some ''basic'' then
                           bind (credential root sanitized ''username'')
                             (\<lambda>username.
                                bind (credential root sanitized ''password'')
                                  (\<lambda>password.
                                     Inr (no_auth \<lparr> authHeaders :=
                                       [(''Authorization'',
                                         VStr (''Basic '' @ base64 D (to_string username @ '':''
                                                 @ to_string password)))] \<rparr>)))
                         else
                           Inl (Error (''Cannot recognize http security scheme ''
                                  @ quoted (to_string (json_stringify D (opt_val (sec_scheme def)))))))
                      else if sec_type def = ''oauth2'' then Inr no_auth
                      else if sec_type def = ''openIdConnect'' then Inr no_auth
                      else Inl (Error (''Cannot recognize security type '' @ quoted (sec_type def))))))"

definition add_cookie :: "string option \<Rightarrow> props \<Rightarrow> props" where
  "add_cookie cookie headers =
     (case cookie of
        None \<Rightarrow> headers
      | Some c \<Rightarrow>
          if truthy (lookup headers ''cookie'')
          then store headers ''cookie'' (VStr (to_string (lookup headers ''cookie'') @ c))
          else store headers ''cookie'' (VStr c))"

text \<open>
  The block "Get authentication headers and query parameters", entered when the
  parent result is an object whose \<^verbatim>\<open>_openAPIToGraphQL\<close> is one.
\<close>

definition source_root :: "val \<Rightarrow> val option" where
  "source_root source =
     (if truthy source \<and> typeof_object source then
        (case get_prop source OPENAPI_TO_GRAPHQL of
           Inr root \<Rightarrow> if typeof_object root then Some root else None
         | Inl e \<Rightarrow> None)
      else None)"

definition add_auth :: "deps \<Rightarrow> operation \<Rightarrow> val \<Rightarrow> request \<Rightarrow> error + request" where
  "add_auth D operation source opts =
     (case source_root source of
        None \<Rightarrow> Inr opts
      | Some root \<Rightarrow>
          bind (getAuthOptions D operation root)
            (\<lambda>auth.
               Inr (opts \<lparr> req_headers :=
                             add_cookie (authCookie auth) (assign (req_headers opts) (authHeaders auth)),
                           req_qs := assign (req_qs opts) (authQs auth) \<rparr>)))"

subsection \<open>OAuth token\<close>

definition extractToken :: "deps \<Rightarrow> options \<Rightarrow> val \<Rightarrow> val option" where
  "extractToken D opts context =
     (case tokenJSONpath opts of
        None \<Rightarrow> None
      | Some p \<Rightarrow> first_token (JSONPath D (VStr p) context))"

definition createOAuthQS :: "deps \<Rightarrow> options \<Rightarrow> val \<Rightarrow> props" where
  "createOAuthQS D opts context =
     (case extractToken D opts context of
        None \<Rightarrow> []
      | Some token \<Rightarrow> [(''access_token'', token)])"

definition createOAuthHeader :: "deps \<Rightarrow> options \<Rightarrow> val \<Rightarrow> props" where
  "createOAuthHeader D opts context =
     (case extractToken D opts context of
        None \<Rightarrow> []
      | Some token \<Rightarrow>
          [(''Authorization'', VStr (''Bearer '' @ to_string token)),
           (''User-Agent'', VStr ''openapi-to-graphql'')])"

definition add_oauth :: "deps \<Rightarrow> options \<Rightarrow> val \<Rightarrow> request \<Rightarrow> request" where
  "add_oauth D opts context req =
     (if sendOAuthTokenInQuery opts
      then req \<lparr> req_qs := assign (req_qs req) (createOAuthQS D opts context) \<rparr>
      else req \<lparr> req_headers := assign (req_headers req) (createOAuthHeader D opts context) \<rparr>)"

text \<open>
  "Pass on OpenAPI-to-GraphQL options": the static headers and query string of the
  options are assigned over what the request holds.
\<close>

definition add_static :: "options \<Rightarrow> request \<Rightarrow> request" where
  "add_static opts req =
     req \<lparr> req_headers := (case opt_headers opts of Some h \<Rightarrow> assign (req_headers req) h
                                                  | None \<Rightarrow> req_headers req),
           req_qs := (case opt_qs opts of Some q \<Rightarrow> assign (req_qs req) q
                                        | None \<Rightarrow> req_qs req) \<rparr>"

section \<open>The request the resolver sends\<close>

text \<open>The request options as the value stored under \<^verbatim>\<open>resolveData.usedRequestOptions\<close>.\<close>

definition request_val :: "request \<Rightarrow> val" where
  "request_val req =
     VObj [(''method'', VStr (req_method req)), (''url'', VStr (req_url req)),
           (''headers'', VObj (req_headers req)), (''qs'', VObj (req_qs req)),
           (''body'', req_body req), (''baseUrl'', opt_val (req_baseUrl req))]"

record prepared =
  prep_args :: props
  prep_resolveData :: val
  prep_options :: request

text \<open>
  The request options: the data of \<^verbatim>\<open>extractRequestDataFromArgs\<close>, the two fixed
  headers, the caller's \<^verbatim>\<open>requestOptions\<close>, the payload as body, the static headers and
  query string of the options, authentication and the OAuth token, in the order of the
  source.
\<close>

definition with_body :: "deps \<Rightarrow> options \<Rightarrow> operation \<Rightarrow> string option \<Rightarrow> props \<Rightarrow> request \<Rightarrow> request" where
  "with_body D opts operation payloadName args req =
     (case payloadName of
        None \<Rightarrow> req
      | Some name \<Rightarrow> req \<lparr> req_body := raw_payload D opts operation name args \<rparr>)"

definition request_of ::
  "deps \<Rightarrow> operation \<Rightarrow> string option \<Rightarrow> options \<Rightarrow> string \<Rightarrow> request_options option
     \<Rightarrow> val \<Rightarrow> props \<Rightarrow> val \<Rightarrow> error + request" where
  "request_of D operation payloadName opts baseUrl requestOptions source args context =
     (case extractRequestDataFromArgs D (op_path operation) (parameters operation) args opts of
        (path, qs, headers) \<Rightarrow>
          bind (add_auth D operation source
                  (add_static opts
                     (with_body D opts operation payloadName args
                        (build_options operation requestOptions (baseUrl @ path)
                           (content_headers operation headers) qs))))
            (\<lambda>req. Inr (add_oauth D opts context req)))"

text \<open>
  \<^verbatim>\<open>resolveData.usedPayload\<close>: reset to \<^verbatim>\<open>undefined\<close>, then the raw payload where the
  operation has one.
\<close>

definition record_payload ::
  "deps \<Rightarrow> options \<Rightarrow> operation \<Rightarrow> string option \<Rightarrow> props \<Rightarrow> val \<Rightarrow> error + val" where
  "record_payload D opts operation payloadName args resolveData =
     bind (set_prop resolveData ''usedPayload'' VUndef)
       (\<lambda>resolveData'.
          case payloadName of
            None \<Rightarrow> Inr resolveData'
          | Some name \<Rightarrow>
              set_prop resolveData' ''usedPayload'' (raw_payload D opts operation name args))"

text \<open>
  Everything the resolve function does before \<^verbatim>\<open>httpRequest\<close>, in the order of the
  source: the arguments as default filling and the links leave them, \<^verbatim>\<open>resolveData\<close>
  with the used parameters, payload, request options and status code, and the options
  of the request.
\<close>

definition prepare ::
  "deps \<Rightarrow> operation \<Rightarrow> (string \<times> string) list \<Rightarrow> string option \<Rightarrow> options \<Rightarrow> string
     \<Rightarrow> request_options option \<Rightarrow> val \<Rightarrow> props \<Rightarrow> val \<Rightarrow> path \<Rightarrow> error + prepared" where
  "prepare D operation argsFromLink payloadName opts baseUrl requestOptions source args0 context info =
     bind (recover_resolveData source info)
       (\<lambda>rd0.
     bind (ensure_usedParams rd0)
       (\<lambda>rd1.
     bind (resolve_links D opts argsFromLink rd1 source
             (fill_defaults D opts (parameters operation) args0))
       (\<lambda>args.
     bind (record_usedParams rd1 args)
       (\<lambda>rd2.
     bind (record_payload D opts operation payloadName args rd2)
       (\<lambda>rd3.
     bind (request_of D operation payloadName opts baseUrl requestOptions source args context)
       (\<lambda>req.
     bind (set_prop rd3 ''usedRequestOptions'' (request_val req))
       (\<lambda>rd4.
     bind (set_prop rd4 ''usedStatusCode'' (VStr (statusCode operation)))
       (\<lambda>rd5.
     Inr \<lparr> prep_args = args, prep_resolveData = rd5, prep_options = req \<rparr>))))))))"

section \<open>The response\<close>

text \<open>
  \<^verbatim>\<open>response.headers['content-type']\<close> where it is truthy: a header that is absent or
  empty counts as no content type.
\<close>

definition content_type :: "response \<Rightarrow> string option" where
  "content_type response =
     (case map_of (res_headers response) ''content-type'' of
        None \<Rightarrow> None
      | Some ct \<Rightarrow> if ct = [] then None else Some ct)"

definition headers_val :: "(string \<times> string) list \<Rightarrow> val" where
  "headers_val hs = VObj (map (\<lambda>(k, v). (k, VStr v)) hs)"

text \<open>
  The inclusion test of the two content types. Without a declared response content
  type the first \<^verbatim>\<open>includes\<close> looks for the text \<^verbatim>\<open>undefined\<close> and the second one is a
  call on \<^verbatim>\<open>undefined\<close>, a \<^verbatim>\<open>TypeError\<close>.
\<close>

definition compatible :: "operation \<Rightarrow> string \<Rightarrow> error + bool" where
  "compatible operation ct =
     (case responseContentType operation of
        Some declared \<Rightarrow> Inr (str_includes ct declared \<or> str_includes declared ct)
      | None \<Rightarrow> if str_includes ct ''undefined'' then Inr True else Inl TypeError)"

definition mismatch_error :: "operation \<Rightarrow> string \<Rightarrow> error" where
  "mismatch_error operation ct =
     Error (''Operation '' @ operationString operation @ '' should have a content-type ''
              @ quoted (to_string (opt_val (responseContentType operation)))
              @ '' but has '' @ quoted ct @ '' instead'')"

definition parse_error :: "operation \<Rightarrow> error" where
  "parse_error operation =
     Error (''Cannot JSON parse response body of operation '' @ operationString operation
              @ '' even though it has content-type '' @ quoted ''application/json'')"

definition invoke_error :: "operation \<Rightarrow> options \<Rightarrow> deps \<Rightarrow> response \<Rightarrow> error" where
  "invoke_error operation opts D response =
     (let errorString = ''Could not invoke operation '' @ operationString operation in
      if provideErrorExtensions opts then
        GraphQLError errorString
          \<lparr> ext_method = op_method operation, ext_path = op_path operation,
            ext_statusCode = res_statusCode response,
            ext_responseHeaders = res_headers response,
            ext_responseBody =
              (case json_parse D (res_body response) of
                 Some parsed \<Rightarrow> parsed
               | None \<Rightarrow> VStr (res_body response)) \<rparr>
      else Error errorString)"

subsection \<open>Passing the record on\<close>

text \<open>
  "Pass on \<^verbatim>\<open>_openAPIToGraphQL\<close> to subsequent resolvers", for one object: it gets a
  \<^verbatim>\<open>_openAPIToGraphQL\<close> if it has none, the parent's one is assigned over it, and the
  record of this resolution is stored in its \<^verbatim>\<open>data\<close> under the identifier of the
  field. The writes go through nested properties, so the model writes the changed
  \<^verbatim>\<open>data\<close> back into \<^verbatim>\<open>_openAPIToGraphQL\<close> and that back into the element.
\<close>

definition attach_one :: "val option \<Rightarrow> path \<Rightarrow> val \<Rightarrow> val \<Rightarrow> error + val" where
  "attach_one parentRoot info resolveData element =
     bind (get_prop element OPENAPI_TO_GRAPHQL)
       (\<lambda>h0.
     bind (if h0 = VUndef
           then set_prop element OPENAPI_TO_GRAPHQL (VObj [(''data'', VObj [])])
           else Inr element)
       (\<lambda>element1.
     bind (get_prop element1 OPENAPI_TO_GRAPHQL)
       (\<lambda>h1.
     bind (case parentRoot of Some root \<Rightarrow> assigned_in_place h1 root | None \<Rightarrow> Inr h1)
       (\<lambda>h2.
     bind (get_prop h2 ''data'')
       (\<lambda>d.
     bind (getIdentifier info)
       (\<lambda>identifier.
     bind (set_prop d identifier resolveData)
       (\<lambda>d'.
     bind (set_prop h2 ''data'' d')
       (\<lambda>h3. set_prop element1 OPENAPI_TO_GRAPHQL h3))))))))"

fun attach_all :: "val option \<Rightarrow> path \<Rightarrow> val \<Rightarrow> val list \<Rightarrow> error + val list" where
  "attach_all parentRoot info resolveData [] = Inr []"
| "attach_all parentRoot info resolveData (element # rest) =
     bind (attach_one parentRoot info resolveData element)
       (\<lambda>e. bind (attach_all parentRoot info resolveData rest) (\<lambda>es. Inr (e # es)))"

definition attach :: "val \<Rightarrow> path \<Rightarrow> val \<Rightarrow> val \<Rightarrow> error + val" where
  "attach source info resolveData saneData =
     (case saneData of
        VArr xs ps \<Rightarrow>
          bind (attach_all (source_root source) info resolveData xs) (\<lambda>xs'. Inr (VArr xs' ps))
      | VObj ps \<Rightarrow> attach_one (source_root source) info resolveData saneData
      | _ \<Rightarrow> Inr saneData)"

subsection \<open>The limit argument\<close>

text \<open>
  \<^verbatim>\<open>limit >= 0\<close> and \<^verbatim>\<open>slice(0, limit)\<close> convert the argument to a number; the slice is
  a new array of the first \<open>limit\<close> elements.
\<close>

definition number_of :: "deps \<Rightarrow> val \<Rightarrow> int option" where
  "number_of D v = (case v of VNum n \<Rightarrow> Some n | _ \<Rightarrow> toNumber D v)"

definition limit_error :: error where
  "limit_error =
     Error (''Auto-generated '' @ quoted ''limit'' @ '' argument must be greater than or equal to 0'')"

definition no_limit_error :: error where
  "no_limit_error = Error (''Cannot get value for auto-generated '' @ quoted ''limit'' @ '' argument'')"

text \<open>
  The test and the computation of "Apply limit argument", given whether some element of
  the array is an object: the number of elements to keep, or \<open>None\<close> where the array
  stays as it is.
\<close>

definition limit_of :: "deps \<Rightarrow> options \<Rightarrow> operation \<Rightarrow> props \<Rightarrow> bool \<Rightarrow> error + nat option" where
  "limit_of D opts operation args some_object =
     (if addLimitArgument opts
         \<and> \<not> list_ex (\<lambda>parameter. param_name parameter = ''limit'') (parameters operation)
         \<and> some_object
      then
        (if has_key args ''limit'' then
           (case number_of D (lookup args ''limit'') of
              Some n \<Rightarrow> if n \<ge> 0 then Inr (Some (nat n)) else Inl limit_error
            | None \<Rightarrow> Inl limit_error)
         else Inl no_limit_error)
      else Inr None)"

definition apply_limit :: "deps \<Rightarrow> options \<Rightarrow> operation \<Rightarrow> props \<Rightarrow> val \<Rightarrow> error + val" where
  "apply_limit D opts operation args saneData =
     (case saneData of
        VArr xs ps \<Rightarrow>
          bind (limit_of D opts operation args (list_ex typeof_object xs))
            (\<lambda>limit. Inr (case limit of Some n \<Rightarrow> VArr (take n xs) [] | None \<Rightarrow> saneData))
      | _ \<Rightarrow> Inr saneData)"

subsection \<open>The handler of the response\<close>

definition shape ::
  "deps \<Rightarrow> operation \<Rightarrow> options \<Rightarrow> val \<Rightarrow> path \<Rightarrow> val \<Rightarrow> response \<Rightarrow> val \<Rightarrow> error + val" where
  "shape D operation opts source info resolveData response responseBody =
     bind (set_prop resolveData ''responseHeaders'' (headers_val (res_headers response)))
       (\<lambda>resolveData'.
          attach source info resolveData' (sanitizeObjectKeys D responseBody (style opts)))"

text \<open>
  What the handler makes of status, content type and body before any shaping: a
  failure, a success without a body, a body that is returned as text, or a parsed JSON
  body.
\<close>

datatype outcome = Failure error | NoBody | Text string | Json val

definition classify :: "deps \<Rightarrow> operation \<Rightarrow> options \<Rightarrow> response \<Rightarrow> outcome" where
  "classify D operation opts response =
     (if res_statusCode response < 200 \<or> res_statusCode response > 299
      then Failure (invoke_error operation opts D response)
      else
        (case content_type response of
           Some ct \<Rightarrow>
             (case compatible operation ct of
                Inl e \<Rightarrow> Failure e
              | Inr ok \<Rightarrow>
                  if \<not> ok then Failure (mismatch_error operation ct)
                  else if str_includes ct ''application/json'' then
                    (case json_parse D (res_body response) of
                       None \<Rightarrow> Failure (parse_error operation)
                     | Some responseBody \<Rightarrow> Json responseBody)
                  else Text (res_body response))
         | None \<Rightarrow>
             (case responseContentType operation of
                None \<Rightarrow> NoBody
              | Some declared \<Rightarrow>
                  Failure (Error ''Response does not have a Content-Type header''))))"

definition handle_response ::
  "deps \<Rightarrow> operation \<Rightarrow> options \<Rightarrow> val \<Rightarrow> props \<Rightarrow> path \<Rightarrow> val \<Rightarrow> response \<Rightarrow> error + val" where
  "handle_response D operation opts source args info resolveData response =
     (case classify D operation opts response of
        Failure e \<Rightarrow> Inl e
      | NoBody \<Rightarrow> Inr VNull
      | Text body \<Rightarrow> Inr (VStr body)
      | Json responseBody \<Rightarrow>
          bind (shape D operation opts source info resolveData response responseBody)
            (apply_limit D opts operation args))"

section \<open>The resolver\<close>

definition resolve ::
  "deps \<Rightarrow> operation \<Rightarrow> (string \<times> string) list \<Rightarrow> string option \<Rightarrow> options \<Rightarrow> string
     \<Rightarrow> request_options option \<Rightarrow> resolver" where
  "resolve D operation argsFromLink payloadName opts baseUrl requestOptions source args context info =
     bind (prepare D operation argsFromLink payloadName opts baseUrl requestOptions
             source args context info)
       (\<lambda>p.
          bind (httpRequest D (prep_options p) context)
            (handle_response D operation opts source (prep_args p) info (prep_resolveData p)))"

text \<open>
  \<^verbatim>\<open>getResolver\<close>: the custom resolver registered for the operation's title, path and
  method if there is one, the synthesized resolver otherwise. \<open>D\<close> stands for the
  \<^verbatim>\<open>data\<close> and \<^verbatim>\<open>httpRequest\<close> of the source's parameter object.
\<close>

definition getResolver ::
  "deps \<Rightarrow> operation \<Rightarrow> (string \<times> string) list \<Rightarrow> string option \<Rightarrow> options
     \<Rightarrow> string option \<Rightarrow> request_options option \<Rightarrow> resolver" where
  "getResolver D operation argsFromLink payloadName opts baseUrl requestOptions =
     (case customResolvers opts (op_title operation) (op_path operation) (op_method operation) of
        Some custom \<Rightarrow> custom
      | None \<Rightarrow>
          resolve D operation argsFromLink payloadName opts
            (case baseUrl of None \<Rightarrow> getBaseUrl D operation | Some b \<Rightarrow> b) requestOptions)"

section \<open>The resolver on a heap\<close>

text \<open>
  The objects that exist when the resolver is called (the parent result with its
  \<^verbatim>\<open>_openAPIToGraphQL\<close>, the argument object) are shared with the caller and with the
  resolvers of sibling fields, so a write to one of them is seen by all. To follow the
  writes, those objects live in a heap: a cell per object, holding primitive values and
  references. What the resolver creates itself (object literals, the results of
  \<^verbatim>\<open>JSON.parse\<close>) is held by value until it is stored into a cell; such a value may
  hold references to cells.
\<close>

datatype hval = HUndef | HNull | HBool bool | HNum int | HStr string | HRef nat

datatype hobj = HObj "(string \<times> hval) list" | HArr "hval list" "(string \<times> hval) list"

record heap =
  cells :: "nat \<Rightarrow> hobj option"
  next_addr :: nat

datatype mval =
    MH hval
  | MObj "(string \<times> mval) list"
  | MArr "mval list" "(string \<times> mval) list"

fun hlookup :: "(string \<times> hval) list \<Rightarrow> string \<Rightarrow> hval" where
  "hlookup [] k = HUndef"
| "hlookup ((k', v) # ps) k = (if k' = k then v else hlookup ps k)"

fun mlookup :: "(string \<times> mval) list \<Rightarrow> string \<Rightarrow> mval" where
  "mlookup [] k = MH HUndef"
| "mlookup ((k', v) # ps) k = (if k' = k then v else mlookup ps k)"

fun h_truthy :: "hval \<Rightarrow> bool" where
  "h_truthy HUndef = False"
| "h_truthy HNull = False"
| "h_truthy (HBool b) = b"
| "h_truthy (HNum n) = (n \<noteq> 0)"
| "h_truthy (HStr s) = (s \<noteq> [])"
| "h_truthy (HRef a) = True"

fun h_typeof_object :: "hval \<Rightarrow> bool" where
  "h_typeof_object HNull = True"
| "h_typeof_object (HRef a) = True"
| "h_typeof_object v = False"

fun m_typeof_object :: "mval \<Rightarrow> bool" where
  "m_typeof_object (MH v) = h_typeof_object v"
| "m_typeof_object v = True"

text \<open>The own enumerable properties of a cell and of a value of the heap.\<close>

fun obj_props :: "hobj \<Rightarrow> (string \<times> hval) list" where
  "obj_props (HObj ps) = ps"
| "obj_props (HArr xs ps) = index_from 0 xs @ ps"

fun h_own_props :: "heap \<Rightarrow> hval \<Rightarrow> (string \<times> hval) list" where
  "h_own_props h (HRef a) = (case cells h a of None \<Rightarrow> [] | Some obj \<Rightarrow> obj_props obj)"
| "h_own_props h (HStr s) = index_from 0 (map (\<lambda>c. HStr [c]) s)"
| "h_own_props h v = []"

fun obj_length :: "hobj \<Rightarrow> hval" where
  "obj_length (HObj ps) = hlookup ps ''length''"
| "obj_length (HArr xs ps) = HNum (int (length xs))"

text \<open>
  \<^verbatim>\<open>v[k]\<close> and \<^verbatim>\<open>k in v\<close> on a value of the heap, as \<open>get_prop\<close> and \<open>in_val\<close> read
  them on a tree. A reference to a cell that does not exist does not occur in a heap
  that a program built; the model reads it as an empty object.
\<close>

fun h_get :: "heap \<Rightarrow> hval \<Rightarrow> string \<Rightarrow> error + hval" where
  "h_get h HUndef k = Inl TypeError"
| "h_get h HNull k = Inl TypeError"
| "h_get h (HRef a) k =
     (case cells h a of
        None \<Rightarrow> Inr HUndef
      | Some obj \<Rightarrow> Inr (if k = ''length'' then obj_length obj else hlookup (obj_props obj) k))"
| "h_get h (HStr s) k =
     Inr (if k = ''length'' then HNum (int (length s)) else hlookup (h_own_props h (HStr s)) k)"
| "h_get h v k = Inr HUndef"

fun h_in :: "heap \<Rightarrow> string \<Rightarrow> hval \<Rightarrow> error + bool" where
  "h_in h k (HRef a) =
     (case cells h a of
        None \<Rightarrow> Inr False
      | Some (HObj ps) \<Rightarrow> Inr (has_key ps k)
      | Some (HArr xs ps) \<Rightarrow> Inr (k = ''length'' \<or> has_key (index_from 0 xs @ ps) k))"
| "h_in h k v = Inl TypeError"

fun m_get :: "heap \<Rightarrow> mval \<Rightarrow> string \<Rightarrow> error + mval" where
  "m_get h (MH v) k = bind (h_get h v k) (\<lambda>w. Inr (MH w))"
| "m_get h (MObj ps) k = Inr (mlookup ps k)"
| "m_get h (MArr xs ps) k =
     Inr (if k = ''length'' then MH (HNum (int (length xs)))
          else mlookup (index_from 0 xs @ ps) k)"

text \<open>
  The tree under a value of the heap, for the functions that only read. The fuel
  bounds the depth; it runs out on a cyclic structure, which is where
  \<^verbatim>\<open>JSON.stringify\<close> throws a \<^verbatim>\<open>TypeError\<close>. \<open>load_in\<close> reads only the cells whose
  address satisfies \<open>allowed\<close> and gives up at any other one; \<open>load\<close> may read them all.
\<close>

function load_in :: "(nat \<Rightarrow> bool) \<Rightarrow> nat \<Rightarrow> heap \<Rightarrow> hval \<Rightarrow> val option"
  and load_elems :: "(nat \<Rightarrow> bool) \<Rightarrow> nat \<Rightarrow> heap \<Rightarrow> hval list \<Rightarrow> val list option"
  and load_props :: "(nat \<Rightarrow> bool) \<Rightarrow> nat \<Rightarrow> heap \<Rightarrow> (string \<times> hval) list \<Rightarrow> props option" where
  "load_in allowed n h HUndef = Some VUndef"
| "load_in allowed n h HNull = Some VNull"
| "load_in allowed n h (HBool b) = Some (VBool b)"
| "load_in allowed n h (HNum i) = Some (VNum i)"
| "load_in allowed n h (HStr s) = Some (VStr s)"
| "load_in allowed 0 h (HRef a) = None"
| "load_in allowed (Suc n) h (HRef a) =
     (if allowed a then
        (case cells h a of
           None \<Rightarrow> Some (VObj [])
         | Some (HObj ps) \<Rightarrow> map_option VObj (load_props allowed n h ps)
         | Some (HArr xs ps) \<Rightarrow>
             (case load_elems allowed n h xs of
                None \<Rightarrow> None
              | Some ys \<Rightarrow> map_option (VArr ys) (load_props allowed n h ps)))
      else None)"
| "load_elems allowed n h [] = Some []"
| "load_elems allowed n h (x # xs) =
     (case load_in allowed n h x of
        None \<Rightarrow> None
      | Some y \<Rightarrow> map_option (\<lambda>ys. y # ys) (load_elems allowed n h xs))"
| "load_props allowed n h [] = Some []"
| "load_props allowed n h ((k, v) # ps) =
     (case load_in allowed n h v of
        None \<Rightarrow> None
      | Some w \<Rightarrow> map_option (\<lambda>qs. (k, w) # qs) (load_props allowed n h ps))"
  by pat_completeness auto
termination
  by (relation "inv_image (less_than <*lex*> less_than)
        (\<lambda>x. case x of
               Inl (allowed, n, h, v) \<Rightarrow> (n, 0)
             | Inr (Inl (allowed, n, h, xs)) \<Rightarrow> (n, Suc (length xs))
             | Inr (Inr (allowed, n, h, ps)) \<Rightarrow> (n, Suc (length ps)))") auto

definition load :: "heap \<Rightarrow> hval \<Rightarrow> val option" where
  "load h v = load_in (\<lambda>a. True) (next_addr h) h v"

fun view :: "heap \<Rightarrow> mval \<Rightarrow> val option"
  and view_elems :: "heap \<Rightarrow> mval list \<Rightarrow> val list option"
  and view_props :: "heap \<Rightarrow> (string \<times> mval) list \<Rightarrow> props option" where
  "view h (MH v) = load h v"
| "view h (MObj ps) = map_option VObj (view_props h ps)"
| "view h (MArr xs ps) =
     (case view_elems h xs of
        None \<Rightarrow> None
      | Some ys \<Rightarrow> map_option (VArr ys) (view_props h ps))"
| "view_elems h [] = Some []"
| "view_elems h (x # xs) =
     (case view h x of
        None \<Rightarrow> None
      | Some y \<Rightarrow> map_option (\<lambda>ys. y # ys) (view_elems h xs))"
| "view_props h [] = Some []"
| "view_props h ((k, v) # ps) =
     (case view h v of
        None \<Rightarrow> None
      | Some w \<Rightarrow> map_option (\<lambda>qs. (k, w) # qs) (view_props h ps))"

text \<open>A tree as a value that is held by value.\<close>

fun m_of_val :: "val \<Rightarrow> mval"
  and m_of_elems :: "val list \<Rightarrow> mval list"
  and m_of_props :: "props \<Rightarrow> (string \<times> mval) list" where
  "m_of_val VUndef = MH HUndef"
| "m_of_val VNull = MH HNull"
| "m_of_val (VBool b) = MH (HBool b)"
| "m_of_val (VNum n) = MH (HNum n)"
| "m_of_val (VStr s) = MH (HStr s)"
| "m_of_val (VArr xs ps) = MArr (m_of_elems xs) (m_of_props ps)"
| "m_of_val (VObj ps) = MObj (m_of_props ps)"
| "m_of_elems [] = []"
| "m_of_elems (x # xs) = m_of_val x # m_of_elems xs"
| "m_of_props [] = []"
| "m_of_props ((k, v) # ps) = (k, m_of_val v) # m_of_props ps"

text \<open>
  Storing a value into the heap: every object it holds by value gets a new cell, at
  the next free address; references stay as they are.
\<close>

definition new_cell :: "hobj \<Rightarrow> heap \<Rightarrow> hval \<times> heap" where
  "new_cell obj h =
     (HRef (next_addr h),
      h \<lparr> cells := (cells h)(next_addr h \<mapsto> obj), next_addr := Suc (next_addr h) \<rparr>)"

fun alloc :: "mval \<Rightarrow> heap \<Rightarrow> hval \<times> heap"
  and alloc_elems :: "mval list \<Rightarrow> heap \<Rightarrow> hval list \<times> heap"
  and alloc_props :: "(string \<times> mval) list \<Rightarrow> heap \<Rightarrow> (string \<times> hval) list \<times> heap" where
  "alloc (MH v) h = (v, h)"
| "alloc (MObj ps) h = (case alloc_props ps h of (qs, h1) \<Rightarrow> new_cell (HObj qs) h1)"
| "alloc (MArr xs ps) h =
     (case alloc_elems xs h of
        (ys, h1) \<Rightarrow> (case alloc_props ps h1 of (qs, h2) \<Rightarrow> new_cell (HArr ys qs) h2))"
| "alloc_elems [] h = ([], h)"
| "alloc_elems (x # xs) h =
     (case alloc x h of (y, h1) \<Rightarrow> (case alloc_elems xs h1 of (ys, h2) \<Rightarrow> (y # ys, h2)))"
| "alloc_props [] h = ([], h)"
| "alloc_props ((k, v) # ps) h =
     (case alloc v h of (w, h1) \<Rightarrow> (case alloc_props ps h1 of (qs, h2) \<Rightarrow> ((k, w) # qs, h2)))"

text \<open>\<^verbatim>\<open>o[k] = w\<close> on the cell at an address.\<close>

fun obj_store :: "hobj \<Rightarrow> string \<Rightarrow> hval \<Rightarrow> hobj" where
  "obj_store (HObj ps) k w = HObj (store ps k w)"
| "obj_store (HArr xs ps) k w = HArr xs (store ps k w)"

definition cell_store :: "nat \<Rightarrow> string \<Rightarrow> hval \<Rightarrow> heap \<Rightarrow> heap" where
  "cell_store a k w h =
     (case cells h a of
        None \<Rightarrow> h
      | Some obj \<Rightarrow> h \<lparr> cells := (cells h)(a \<mapsto> obj_store obj k w) \<rparr>)"

fun cell_assign :: "nat \<Rightarrow> (string \<times> hval) list \<Rightarrow> heap \<Rightarrow> heap" where
  "cell_assign a [] h = h"
| "cell_assign a ((k, w) # src) h = cell_assign a src (cell_store a k w h)"

text \<open>
  Steps that may throw and may change the heap: the result and the heap after the
  step, which is also the heap after a \<^verbatim>\<open>throw\<close>.
\<close>

type_synonym 'a step = "heap \<Rightarrow> (error + 'a) \<times> heap"

definition hbind :: "'a step \<Rightarrow> ('a \<Rightarrow> 'b step) \<Rightarrow> 'b step" where
  "hbind m f h = (case m h of (Inl e, h1) \<Rightarrow> (Inl e, h1) | (Inr x, h1) \<Rightarrow> f x h1)"

definition reading :: "(heap \<Rightarrow> error + 'a) \<Rightarrow> 'a step" where
  "reading f h = (f h, h)"

definition ok :: "'a \<Rightarrow> 'a step" where
  "ok x h = (Inr x, h)"

text \<open>
  \<^verbatim>\<open>target[k] = v\<close>: on a value held by value the result is the changed value and the
  heap stays; on a reference the value is stored into the heap and the cell changes.
\<close>

fun m_set :: "mval \<Rightarrow> string \<Rightarrow> mval \<Rightarrow> mval step" where
  "m_set (MObj ps) k v h = (Inr (MObj (store ps k v)), h)"
| "m_set (MArr xs ps) k v h = (Inr (MArr xs (store ps k v)), h)"
| "m_set (MH (HRef a)) k v h =
     (case alloc v h of (w, h1) \<Rightarrow> (Inr (MH (HRef a)), cell_store a k w h1))"
| "m_set (MH u) k v h = (Inl TypeError, h)"

text \<open>
  A nested write changes an object that its holder refers to. Where the holder is held
  by value, the changed object is put back into it; where it is a reference, the heap
  has changed already.
\<close>

fun put_back :: "mval \<Rightarrow> string \<Rightarrow> mval \<Rightarrow> mval" where
  "put_back (MObj ps) k v = MObj (store ps k v)"
| "put_back (MArr xs ps) k v = MArr xs (store ps k v)"
| "put_back u k v = u"

text \<open>
  \<^verbatim>\<open>Object.assign(target, src)\<close> with a source in the heap. \<open>m_object_assign\<close> is the
  object the call returns, \<open>m_assigned_in_place\<close> the target after the call.
\<close>

definition lifted :: "(string \<times> hval) list \<Rightarrow> (string \<times> mval) list" where
  "lifted ps = map (\<lambda>(k, v). (k, MH v)) ps"

fun m_object_assign :: "mval \<Rightarrow> hval \<Rightarrow> mval step" where
  "m_object_assign (MObj ps) src h = (Inr (MObj (assign ps (lifted (h_own_props h src)))), h)"
| "m_object_assign (MArr xs ps) src h =
     (Inr (MArr xs (assign ps (lifted (h_own_props h src)))), h)"
| "m_object_assign (MH (HRef a)) src h = (Inr (MH (HRef a)), cell_assign a (h_own_props h src) h)"
| "m_object_assign (MH HUndef) src h = (Inl TypeError, h)"
| "m_object_assign (MH HNull) src h = (Inl TypeError, h)"
| "m_object_assign (MH u) src h =
     (Inr (MObj (assign (lifted (h_own_props h u)) (lifted (h_own_props h src)))), h)"

fun m_assigned_in_place :: "mval \<Rightarrow> hval \<Rightarrow> mval step" where
  "m_assigned_in_place (MObj ps) src h = m_object_assign (MObj ps) src h"
| "m_assigned_in_place (MArr xs ps) src h = m_object_assign (MArr xs ps) src h"
| "m_assigned_in_place (MH (HRef a)) src h = m_object_assign (MH (HRef a)) src h"
| "m_assigned_in_place (MH HUndef) src h = (Inl TypeError, h)"
| "m_assigned_in_place (MH HNull) src h = (Inl TypeError, h)"
| "m_assigned_in_place (MH u) src h = (Inr (MH u), h)"


section \<open>The steps of the resolver on the heap\<close>

text \<open>
  The same steps as above, in the same order, with the parent result and the
  arguments in the heap. Reads go through \<open>h_get\<close>, or through the tree under a value
  where a function of the previous sections does the work (a cyclic structure, which
  parsed JSON, coerced arguments and the resolver's records never are, ends such a
  step with a \<^verbatim>\<open>TypeError\<close>). Every write is a \<open>m_set\<close> or an \<^verbatim>\<open>Object.assign\<close> on
  the value the source writes to. A value that a link expression, the payload or the
  request brings in is written as its tree: the source writes the reference where
  the value is an object, and no later step writes through it.
\<close>

definition failing :: "error \<Rightarrow> 'a step" where
  "failing e h = (Inl e, h)"

definition tree_of :: "mval \<Rightarrow> heap \<Rightarrow> error + val" where
  "tree_of v h = (case view h v of None \<Rightarrow> Inl TypeError | Some t \<Rightarrow> Inr t)"

definition args_view :: "hval \<Rightarrow> heap \<Rightarrow> error + props" where
  "args_view args h = bind (tree_of (MH args) h) (\<lambda>t. Inr (own_props t))"

text \<open>
  \<^verbatim>\<open>JSON.parse(JSON.stringify(record))\<close>: the tree under the record is written out and
  parsed again, which gives a value of its own that shares nothing with the heap.
\<close>

definition json_copy_h :: "hval \<Rightarrow> heap \<Rightarrow> error + mval" where
  "json_copy_h record h =
     bind (tree_of (MH record) h) (\<lambda>t. bind (json_copy t) (\<lambda>c. Inr (m_of_val c)))"

definition recover_h :: "hval \<Rightarrow> path \<Rightarrow> heap \<Rightarrow> error + mval" where
  "recover_h source info h =
     (if h_truthy source \<and> h_typeof_object source then
        bind (h_get h source OPENAPI_TO_GRAPHQL)
          (\<lambda>root.
             if h_typeof_object root then
               bind (h_get h root ''data'')
                 (\<lambda>data.
                    if h_typeof_object data then
                      bind (getParentIdentifier info)
                        (\<lambda>parentIdentifier.
                           if parentIdentifier \<noteq> [] then
                             bind (h_in h parentIdentifier data)
                               (\<lambda>present.
                                  if present
                                  then bind (h_get h data parentIdentifier)
                                         (\<lambda>record. json_copy_h record h)
                                  else Inr (MObj []))
                           else Inr (MObj []))
                    else Inr (MObj []))
             else Inr (MObj []))
      else Inr (MObj []))"

definition ensure_usedParams_m :: "mval \<Rightarrow> mval step" where
  "ensure_usedParams_m resolveData =
     hbind (reading (\<lambda>h. m_get h resolveData ''usedParams''))
       (\<lambda>usedParams.
          if usedParams = MH HUndef then m_set resolveData ''usedParams'' (MObj [])
          else ok resolveData)"

definition fill_default_h :: "deps \<Rightarrow> options \<Rightarrow> parameter \<Rightarrow> hval \<Rightarrow> unit step" where
  "fill_default_h D opts param args =
     hbind (reading (\<lambda>h. h_get h args (sanitize D (param_name param) (style opts))))
       (\<lambda>current.
          if current = HUndef then
            (case injected_default D param of
               Some default_value \<Rightarrow>
                 hbind (m_set (MH args) (sanitize D (param_name param) (style opts))
                          (m_of_val default_value))
                   (\<lambda>r. ok ())
             | None \<Rightarrow> ok ())
          else ok ())"

fun fill_defaults_h :: "deps \<Rightarrow> options \<Rightarrow> parameter list \<Rightarrow> hval \<Rightarrow> unit step" where
  "fill_defaults_h D opts [] args = ok ()"
| "fill_defaults_h D opts (param # rest) args =
     hbind (fill_default_h D opts param args) (\<lambda>r. fill_defaults_h D opts rest args)"

definition link_value_h ::
  "deps \<Rightarrow> string \<Rightarrow> string \<Rightarrow> mval \<Rightarrow> hval \<Rightarrow> hval \<Rightarrow> heap \<Rightarrow> error + val" where
  "link_value_h D paramName value resolveData source args h =
     bind (tree_of resolveData h)
       (\<lambda>rd. bind (tree_of (MH source) h)
          (\<lambda>root. bind (args_view args h)
             (\<lambda>a. link_value D paramName value rd root a)))"

fun resolve_links_h ::
  "deps \<Rightarrow> options \<Rightarrow> (string \<times> string) list \<Rightarrow> mval \<Rightarrow> hval \<Rightarrow> hval \<Rightarrow> unit step" where
  "resolve_links_h D opts [] resolveData source args = ok ()"
| "resolve_links_h D opts ((paramName, value) # rest) resolveData source args =
     hbind (reading (link_value_h D paramName value resolveData source args))
       (\<lambda>v. hbind (m_set (MH args) (sanitize D paramName (style opts)) (m_of_val v))
               (\<lambda>r. resolve_links_h D opts rest resolveData source args))"

definition record_usedParams_m :: "mval \<Rightarrow> hval \<Rightarrow> mval step" where
  "record_usedParams_m resolveData args =
     hbind (reading (\<lambda>h. m_get h resolveData ''usedParams''))
       (\<lambda>usedParams.
          hbind (m_object_assign usedParams args)
            (\<lambda>assigned. m_set resolveData ''usedParams'' assigned))"

definition record_payload_m ::
  "deps \<Rightarrow> options \<Rightarrow> operation \<Rightarrow> string option \<Rightarrow> props \<Rightarrow> mval \<Rightarrow> mval step" where
  "record_payload_m D opts operation payloadName args resolveData =
     hbind (m_set resolveData ''usedPayload'' (MH HUndef))
       (\<lambda>resolveData'.
          case payloadName of
            None \<Rightarrow> ok resolveData'
          | Some name \<Rightarrow>
              m_set resolveData' ''usedPayload''
                (m_of_val (raw_payload D opts operation name args)))"

definition request_of_h ::
  "deps \<Rightarrow> operation \<Rightarrow> string option \<Rightarrow> options \<Rightarrow> string \<Rightarrow> request_options option
     \<Rightarrow> hval \<Rightarrow> props \<Rightarrow> val \<Rightarrow> heap \<Rightarrow> error + request" where
  "request_of_h D operation payloadName opts baseUrl requestOptions source args context h =
     bind (tree_of (MH source) h)
       (\<lambda>root. request_of D operation payloadName opts baseUrl requestOptions root args context)"

definition prepare_h ::
  "deps \<Rightarrow> operation \<Rightarrow> (string \<times> string) list \<Rightarrow> string option \<Rightarrow> options \<Rightarrow> string
     \<Rightarrow> request_options option \<Rightarrow> hval \<Rightarrow> hval \<Rightarrow> val \<Rightarrow> path \<Rightarrow> (mval \<times> request) step" where
  "prepare_h D operation argsFromLink payloadName opts baseUrl requestOptions source args context info =
     hbind (reading (recover_h source info))
       (\<lambda>rd0.
     hbind (ensure_usedParams_m rd0)
       (\<lambda>rd1.
     hbind (fill_defaults_h D opts (parameters operation) args)
       (\<lambda>r.
     hbind (resolve_links_h D opts argsFromLink rd1 source args)
       (\<lambda>r.
     hbind (record_usedParams_m rd1 args)
       (\<lambda>rd2.
     hbind (reading (args_view args))
       (\<lambda>a.
     hbind (record_payload_m D opts operation payloadName a rd2)
       (\<lambda>rd3.
     hbind (reading (request_of_h D operation payloadName opts baseUrl requestOptions
                       source a context))
       (\<lambda>req.
     hbind (m_set rd3 ''usedRequestOptions'' (m_of_val (request_val req)))
       (\<lambda>rd4.
     hbind (m_set rd4 ''usedStatusCode'' (MH (HStr (statusCode operation))))
       (\<lambda>rd5. ok (rd5, req)))))))))))"

subsection \<open>The response on the heap\<close>

definition source_root_h :: "hval \<Rightarrow> heap \<Rightarrow> hval option" where
  "source_root_h source h =
     (if h_truthy source \<and> h_typeof_object source then
        (case h_get h source OPENAPI_TO_GRAPHQL of
           Inr root \<Rightarrow> if h_typeof_object root then Some root else None
         | Inl e \<Rightarrow> None)
      else None)"

definition inherit :: "hval \<Rightarrow> mval \<Rightarrow> mval step" where
  "inherit source target h =
     (case source_root_h source h of
        Some root \<Rightarrow> m_assigned_in_place target root h
      | None \<Rightarrow> ok target h)"

definition attach_one_m :: "hval \<Rightarrow> path \<Rightarrow> mval \<Rightarrow> mval \<Rightarrow> mval step" where
  "attach_one_m source info resolveData element =
     hbind (reading (\<lambda>h. m_get h element OPENAPI_TO_GRAPHQL))
       (\<lambda>h0.
     hbind (if h0 = MH HUndef
            then m_set element OPENAPI_TO_GRAPHQL (MObj [(''data'', MObj [])])
            else ok element)
       (\<lambda>element1.
     hbind (reading (\<lambda>h. m_get h element1 OPENAPI_TO_GRAPHQL))
       (\<lambda>h1.
     hbind (inherit source h1)
       (\<lambda>h2.
     hbind (reading (\<lambda>h. m_get h h2 ''data''))
       (\<lambda>d.
     hbind (reading (\<lambda>h. getIdentifier info))
       (\<lambda>identifier.
     hbind (m_set d identifier resolveData)
       (\<lambda>d'. ok (put_back element1 OPENAPI_TO_GRAPHQL (put_back h2 ''data'' d')))))))))"

fun attach_all_m :: "hval \<Rightarrow> path \<Rightarrow> mval \<Rightarrow> mval list \<Rightarrow> mval list step" where
  "attach_all_m source info resolveData [] = ok []"
| "attach_all_m source info resolveData (element # rest) =
     hbind (attach_one_m source info resolveData element)
       (\<lambda>e. hbind (attach_all_m source info resolveData rest) (\<lambda>es. ok (e # es)))"

definition attach_m :: "hval \<Rightarrow> path \<Rightarrow> mval \<Rightarrow> mval \<Rightarrow> mval step" where
  "attach_m source info resolveData saneData =
     (case saneData of
        MArr xs ps \<Rightarrow>
          hbind (attach_all_m source info resolveData xs) (\<lambda>xs'. ok (MArr xs' ps))
      | MObj ps \<Rightarrow> attach_one_m source info resolveData saneData
      | MH v \<Rightarrow> ok saneData)"

text \<open>
  \<^verbatim>\<open>resolveData\<close> is one object, which every element of the result refers to: it is
  stored into the heap once, before the elements get it.
\<close>

definition stored :: "mval \<Rightarrow> mval step" where
  "stored v h = (case alloc v h of (r, h1) \<Rightarrow> (Inr (MH r), h1))"

definition shape_m ::
  "deps \<Rightarrow> operation \<Rightarrow> options \<Rightarrow> hval \<Rightarrow> path \<Rightarrow> mval \<Rightarrow> response \<Rightarrow> val \<Rightarrow> mval step" where
  "shape_m D operation opts source info resolveData response responseBody =
     hbind (m_set resolveData ''responseHeaders'' (m_of_val (headers_val (res_headers response))))
       (\<lambda>resolveData'.
          hbind (stored resolveData')
            (\<lambda>record.
               attach_m source info record
                 (m_of_val (sanitizeObjectKeys D responseBody (style opts)))))"

definition apply_limit_m :: "deps \<Rightarrow> options \<Rightarrow> operation \<Rightarrow> props \<Rightarrow> mval \<Rightarrow> error + mval" where
  "apply_limit_m D opts operation args saneData =
     (case saneData of
        MArr xs ps \<Rightarrow>
          bind (limit_of D opts operation args (list_ex m_typeof_object xs))
            (\<lambda>limit. Inr (case limit of Some n \<Rightarrow> MArr (take n xs) [] | None \<Rightarrow> saneData))
      | _ \<Rightarrow> Inr saneData)"

definition handle_response_h ::
  "deps \<Rightarrow> operation \<Rightarrow> options \<Rightarrow> hval \<Rightarrow> hval \<Rightarrow> path \<Rightarrow> mval \<Rightarrow> response \<Rightarrow> mval step" where
  "handle_response_h D operation opts source args info resolveData response =
     (case classify D operation opts response of
        Failure e \<Rightarrow> failing e
      | NoBody \<Rightarrow> ok (MH HNull)
      | Text body \<Rightarrow> ok (MH (HStr body))
      | Json responseBody \<Rightarrow>
          hbind (shape_m D operation opts source info resolveData response responseBody)
            (\<lambda>saneData.
               reading (\<lambda>h. bind (args_view args h)
                              (\<lambda>a. apply_limit_m D opts operation a saneData))))"

definition resolve_h ::
  "deps \<Rightarrow> operation \<Rightarrow> (string \<times> string) list \<Rightarrow> string option \<Rightarrow> options \<Rightarrow> string
     \<Rightarrow> request_options option \<Rightarrow> hval \<Rightarrow> hval \<Rightarrow> val \<Rightarrow> path \<Rightarrow> mval step" where
  "resolve_h D operation argsFromLink payloadName opts baseUrl requestOptions source args context info =
     hbind (prepare_h D operation argsFromLink payloadName opts baseUrl requestOptions
              source args context info)
       (\<lambda>(resolveData, req).
          hbind (reading (\<lambda>h. httpRequest D req context))
            (handle_response_h D operation opts source args info resolveData))"

section \<open>What a step writes\<close>

text \<open>
  A step leaves the heap in the frame of a set of addresses \<open>A\<close> when every cell that
  existed before the step and is not in \<open>A\<close> is the same after it; cells are only
  added, never removed.
\<close>

definition frame :: "nat set \<Rightarrow> heap \<Rightarrow> heap \<Rightarrow> bool" where
  "frame A h h' \<longleftrightarrow>
     next_addr h \<le> next_addr h' \<and> (\<forall>x < next_addr h. x \<notin> A \<longrightarrow> cells h' x = cells h x)"

text \<open>
  The cell a write to a value goes to, and the values that hold no reference at all.
\<close>

fun target :: "mval \<Rightarrow> nat set" where
  "target (MH (HRef a)) = {a}"
| "target v = {}"

fun pure_m :: "mval \<Rightarrow> bool"
  and pure_elems :: "mval list \<Rightarrow> bool"
  and pure_props :: "(string \<times> mval) list \<Rightarrow> bool" where
  "pure_m (MH (HRef a)) = False"
| "pure_m (MH v) = True"
| "pure_m (MObj ps) = pure_props ps"
| "pure_m (MArr xs ps) = (pure_elems xs \<and> pure_props ps)"
| "pure_elems [] = True"
| "pure_elems (x # xs) = (pure_m x \<and> pure_elems xs)"
| "pure_props [] = True"
| "pure_props ((k, v) # ps) = (pure_m v \<and> pure_props ps)"

text \<open>
  \<open>writes P A m G\<close>: from a heap where \<open>P\<close> holds, the step \<open>m\<close> changes at most the
  cells in \<open>A\<close>, keeps \<open>P\<close>, and a result it returns satisfies \<open>G\<close>. \<open>stable P B\<close>: writes
  to the cells in \<open>B\<close> keep \<open>P\<close>.
\<close>

definition writes :: "(heap \<Rightarrow> bool) \<Rightarrow> nat set \<Rightarrow> 'a step \<Rightarrow> ('a \<Rightarrow> bool) \<Rightarrow> bool" where
  "writes P A m G \<longleftrightarrow>
     (\<forall>h r h'. P h \<longrightarrow> m h = (r, h') \<longrightarrow>
        frame A h h' \<and> P h' \<and> (\<forall>x. r = Inr x \<longrightarrow> G x))"

definition stable :: "(heap \<Rightarrow> bool) \<Rightarrow> nat set \<Rightarrow> bool" where
  "stable P B \<longleftrightarrow> (\<forall>h h'. P h \<longrightarrow> frame B h h' \<longrightarrow> P h')"

text \<open>
  The parent result at \<open>s\<close>, its \<^verbatim>\<open>_openAPIToGraphQL\<close> at \<open>t\<close> and the table of records
  \<^verbatim>\<open>data\<close> at \<open>d\<close>: the first two are as they were, and the table is as it was under
  every key but \<open>ident\<close>.
\<close>

definition parent_kept ::
  "nat \<Rightarrow> nat \<Rightarrow> nat \<Rightarrow> (string \<times> hval) list \<Rightarrow> (string \<times> hval) list \<Rightarrow> (string \<times> hval) list
     \<Rightarrow> string \<Rightarrow> heap \<Rightarrow> bool" where
  "parent_kept s t d sps tps dps ident h \<longleftrightarrow>
     s < next_addr h \<and> t < next_addr h \<and> d < next_addr h
     \<and> cells h s = Some (HObj sps) \<and> cells h t = Some (HObj tps)
     \<and> (\<exists>dps'. cells h d = Some (HObj dps')
           \<and> (\<forall>k. k \<noteq> ident \<longrightarrow>
                  hlookup dps' k = hlookup dps k \<and> (has_key dps' k \<longleftrightarrow> has_key dps k)))"

section \<open>Concrete inputs\<close>

text \<open>
  An operation \<^verbatim>\<open>GET /users\<close> that returns a JSON array, options with the limit
  argument switched on, and collaborators simple enough to evaluate: names are already
  sane, \<^verbatim>\<open>JSON.parse\<close> knows the bodies used below, a JSON path is a single property
  name, and the transport answers with a fixed response.
\<close>

definition users_body :: string where
  "users_body = ''[{\"id\":1},{\"id\":2},{\"id\":3},{\"id\":4},{\"id\":5}]''"

definition users_json :: val where
  "users_json =
     VArr [VObj [(''id'', VNum 1)], VObj [(''id'', VNum 2)], VObj [(''id'', VNum 3)],
           VObj [(''id'', VNum 4)], VObj [(''id'', VNum 5)]] []"

definition demo_parse :: "string \<Rightarrow> val option" where
  "demo_parse s =
     (if s = users_body then Some users_json
      else if s = ''{\"id\":\"42\"}'' then Some (VObj [(''id'', VStr ''42'')])
      else None)"

definition demo_jsonpath :: "val \<Rightarrow> val \<Rightarrow> val" where
  "demo_jsonpath path json =
     (case path of
        VStr k \<Rightarrow>
          (case json of
             VObj ps \<Rightarrow> if has_key ps k then VArr [lookup ps k] [] else VArr [] []
           | _ \<Rightarrow> VArr [] [])
      | _ \<Rightarrow> VUndef)"

definition demo_deps :: "response \<Rightarrow> deps" where
  "demo_deps r =
     \<lparr> sanitize = (\<lambda>name c. name), resolveRef = (\<lambda>ref. None),
       getBaseUrl = (\<lambda>operation. ''http://localhost:3000''),
       sanitizeObjectKeys = (\<lambda>v c. v), desanitizeObjectKeys = (\<lambda>v. v),
       json_stringify = (\<lambda>v. VUndef), json_parse = demo_parse, toNumber = (\<lambda>v. None),
       formurlencoded = (\<lambda>v. VUndef), JSONPath = demo_jsonpath, base64 = (\<lambda>s. s),
       security = (\<lambda>name. None), httpRequest = (\<lambda>req context. Inr r) \<rparr>"

definition list_users :: operation where
  "list_users =
     \<lparr> op_method = ''get'', op_path = ''/users'', op_title = ''Users'',
       operationString = ''GET /users'', parameters = [], payloadContentType = None,
       responseContentType = Some ''application/json'', statusCode = ''200'',
       securityRequirements = [] \<rparr>"

definition demo_options :: options where
  "demo_options =
     \<lparr> simpleNames = False, genericPayloadArgName = False, opt_headers = None, opt_qs = None,
       sendOAuthTokenInQuery = False, tokenJSONpath = None, provideErrorExtensions = False,
       addLimitArgument = True, customResolvers = (\<lambda>title path method. None) \<rparr>"

definition users_request :: request where
  "users_request =
     \<lparr> req_method = ''get'', req_url = ''http://localhost:3000/users'',
       req_headers = [(''accept'', VStr ''application/json'')], req_qs = [],
       req_body = VUndef, req_baseUrl = None \<rparr>"

text \<open>
  The five users as the resolver returns them for the arguments \<open>args\<close>: each carries
  the record of the resolution under the identifier \<^verbatim>\<open>users\<close>.
\<close>

definition users_record :: "props \<Rightarrow> val" where
  "users_record args =
     VObj [(''usedParams'', VObj args), (''usedPayload'', VUndef),
           (''usedRequestOptions'', request_val users_request),
           (''usedStatusCode'', VStr ''200''),
           (''responseHeaders'', VObj [(''content-type'', VStr ''application/json'')])]"

definition user :: "props \<Rightarrow> int \<Rightarrow> val" where
  "user args i =
     VObj [(''id'', VNum i),
           (''_openAPIToGraphQL'', VObj [(''data'', VObj [(''users'', users_record args)])])]"

definition users_prepared :: "props \<Rightarrow> prepared" where
  "users_prepared args =
     \<lparr> prep_args = args,
       prep_resolveData =
         VObj [(''usedParams'', VObj (assign [] args)), (''usedPayload'', VUndef),
               (''usedRequestOptions'', request_val users_request),
               (''usedStatusCode'', VStr ''200'')],
       prep_options = users_request \<rparr>"

definition users_response :: response where
  "users_response =
     \<lparr> res_statusCode = 200, res_headers = [(''content-type'', ''application/json'')],
       res_body = users_body \<rparr>"

text \<open>
  A heap after \<^verbatim>\<open>users\<close> was resolved with \<^verbatim>\<open>limit: 2\<close>: the first user at address 0,
  its \<^verbatim>\<open>_openAPIToGraphQL\<close> at 1, the table of records at 2, the record of \<^verbatim>\<open>users\<close>
  at 3 with its \<^verbatim>\<open>usedParams\<close> at 4, and at 5 the empty argument object of the field
  \<^verbatim>\<open>friends\<close>, which is resolved next on that user.
\<close>

definition parent_heap :: heap where
  "parent_heap =
     \<lparr> cells = (\<lambda>x. None)
         (0 := Some (HObj [(''id'', HNum 1), (''_openAPIToGraphQL'', HRef 1)]),
          1 := Some (HObj [(''data'', HRef 2)]),
          2 := Some (HObj [(''users'', HRef 3)]),
          3 := Some (HObj [(''usedParams'', HRef 4), (''usedStatusCode'', HStr ''200'')]),
          4 := Some (HObj [(''limit'', HNum 2)]),
          5 := Some (HObj [])),
       next_addr = 6 \<rparr>"

definition friends_path :: path where
  "friends_path = [Field ''friends'', Index 0, Field ''users'']"

text \<open>
  The resolver of \<^verbatim>\<open>friends\<close>, an operation without parameters and without the limit
  argument, called on that heap.
\<close>

definition friends_run :: "(error + mval) \<times> heap" where
  "friends_run =
     resolve_h (demo_deps users_response) list_users [] None
       (demo_options \<lparr> addLimitArgument := False \<rparr>) [] None
       (HRef 0) (HRef 5) VUndef friends_path parent_heap"

section \<open>Properties\<close>

subsection \<open>Basic facts\<close>

lemma lookup_store_same: "lookup (store ps k v) k = v"
  by (induction ps) auto

lemma lookup_store_other: "k' \<noteq> k \<Longrightarrow> lookup (store ps k v) k' = lookup ps k'"
  by (induction ps) auto

lemma has_key_store: "has_key (store ps k v) k' \<longleftrightarrow> k' = k \<or> has_key ps k'"
  by (induction ps) (auto split: if_splits)

lemma str_includes_sublist: "str_includes s t \<longleftrightarrow> sublist t s"
  by (induction s) (auto simp: sublist_Cons_right)

lemma resolve_response:
  assumes "prepare D operation argsFromLink payloadName opts baseUrl requestOptions
             source args context info = Inr p"
    and "httpRequest D (prep_options p) context = Inr response"
  shows "resolve D operation argsFromLink payloadName opts baseUrl requestOptions
           source args context info
         = handle_response D operation opts source (prep_args p) info (prep_resolveData p) response"
  using assms by (simp add: resolve_def)

lemma prepare_users:
  "prepare (demo_deps r) list_users [] None
     (demo_options \<lparr> provideErrorExtensions := b, addLimitArgument := l \<rparr>)
     ''http://localhost:3000'' None VUndef args VNull [Field ''users'']
   = Inr \<lparr> prep_args = args,
           prep_resolveData =
             VObj [(''usedParams'', VObj (assign [] args)), (''usedPayload'', VUndef),
                   (''usedRequestOptions'', request_val users_request),
                   (''usedStatusCode'', VStr ''200'')],
           prep_options = users_request \<rparr>"
  by (simp add: prepare_def recover_resolveData_def ensure_usedParams_def list_users_def
      record_usedParams_def extractRequestDataFromArgs_def record_payload_def request_of_def
      with_body_def build_options_def
      content_headers_def HTTP_METHODS_get_def add_auth_def add_static_def source_root_def
      add_oauth_def createOAuthHeader_def createOAuthQS_def extractToken_def users_request_def
      request_val_def opt_val_def demo_options_def)

lemma http_demo: "httpRequest (demo_deps r) req context = Inr r"
  by (simp add: demo_deps_def)

subsection \<open>Status codes outside 200..299\<close>

text \<open>
  C4. Whenever the request was built and the transport answered with a status code
  outside 200..299, the resolver fails. With \<^verbatim>\<open>provideErrorExtensions\<close> the error is a
  \<^verbatim>\<open>GraphQLError\<close> whose extensions hold the operation's method and path, the status
  code and the headers of the response, and its body, parsed as JSON where it parses
  and as the raw text otherwise. Without the option the error is a plain \<^verbatim>\<open>Error\<close> that
  holds the message \<^verbatim>\<open>Could not invoke operation ...\<close> and nothing else.
\<close>

theorem status_outside_2xx_fails:
  assumes "prepare D operation argsFromLink payloadName opts baseUrl requestOptions
             source args context info = Inr p"
    and "httpRequest D (prep_options p) context = Inr response"
    and "res_statusCode response < 200 \<or> 299 < res_statusCode response"
  shows "resolve D operation argsFromLink payloadName opts baseUrl requestOptions
           source args context info
         = Inl (if provideErrorExtensions opts
                then GraphQLError (''Could not invoke operation '' @ operationString operation)
                       \<lparr> ext_method = op_method operation, ext_path = op_path operation,
                         ext_statusCode = res_statusCode response,
                         ext_responseHeaders = res_headers response,
                         ext_responseBody =
                           (case json_parse D (res_body response) of
                              Some parsed \<Rightarrow> parsed
                            | None \<Rightarrow> VStr (res_body response)) \<rparr>
                else Error (''Could not invoke operation '' @ operationString operation))"
  using assms(3) by (simp add: resolve_response [OF assms(1,2)] handle_response_def classify_def invoke_error_def)

theorem status_outside_2xx_fails_witness:
  "resolve (demo_deps \<lparr> res_statusCode = 404, res_headers = [(''content-type'', ''text/plain'')],
                          res_body = ''Not Found'' \<rparr>)
     list_users [] None (demo_options \<lparr> provideErrorExtensions := True, addLimitArgument := True \<rparr>)
     ''http://localhost:3000'' None VUndef [] VNull [Field ''users'']
   = Inl (GraphQLError ''Could not invoke operation GET /users''
            \<lparr> ext_method = ''get'', ext_path = ''/users'', ext_statusCode = 404,
              ext_responseHeaders = [(''content-type'', ''text/plain'')],
              ext_responseBody = VStr ''Not Found'' \<rparr>)"
  using status_outside_2xx_fails [OF prepare_users http_demo,
      of "\<lparr> res_statusCode = 404, res_headers = [(''content-type'', ''text/plain'')],
                          res_body = ''Not Found'' \<rparr>" True True "[]"]
  by (simp add: list_users_def demo_deps_def demo_parse_def users_body_def)

subsection \<open>Evaluating the resolver on the concrete inputs\<close>

lemma prepare_plain:
  assumes "parameters operation = []"
  shows "prepare (demo_deps r) operation [] None
     (demo_options \<lparr> provideErrorExtensions := b, addLimitArgument := l \<rparr>)
     url None VUndef args VNull [Field f]
   = Inr \<lparr> prep_args = args,
           prep_resolveData =
             VObj [(''usedParams'', VObj (assign [] args)), (''usedPayload'', VUndef),
                   (''usedRequestOptions'',
                    request_val \<lparr> req_method = op_method operation, req_url = url @ op_path operation,
                       req_headers = content_headers operation [], req_qs = [], req_body = VUndef,
                       req_baseUrl = None \<rparr>),
                   (''usedStatusCode'', VStr (statusCode operation))],
           prep_options = \<lparr> req_method = op_method operation, req_url = url @ op_path operation,
                       req_headers = content_headers operation [], req_qs = [], req_body = VUndef,
                       req_baseUrl = None \<rparr> \<rparr>"
  using assms
  by (simp add: prepare_def recover_resolveData_def ensure_usedParams_def
      record_usedParams_def extractRequestDataFromArgs_def record_payload_def request_of_def
      with_body_def build_options_def
      add_auth_def add_static_def source_root_def
      add_oauth_def createOAuthHeader_def createOAuthQS_def extractToken_def
      demo_options_def)

lemma users_prepare:
  "prepare (demo_deps r) list_users [] None
     (demo_options \<lparr> provideErrorExtensions := b, addLimitArgument := l \<rparr>)
     ''http://localhost:3000'' None VUndef args VNull [Field ''users'']
   = Inr (users_prepared args)"
proof -
  have "parameters list_users = []"
    by (simp add: list_users_def)
  from prepare_plain [OF this] show ?thesis
    by (simp add: users_prepared_def users_request_def list_users_def content_headers_def
        HTTP_METHODS_get_def)
qed

lemma users_shape:
  "shape (demo_deps r) list_users
     (demo_options \<lparr> provideErrorExtensions := b, addLimitArgument := l \<rparr>) VUndef
     [Field ''users''] (prep_resolveData (users_prepared args)) users_response users_json
   = Inr (VArr [user (assign [] args) 1, user (assign [] args) 2, user (assign [] args) 3,
                user (assign [] args) 4, user (assign [] args) 5] [])"
  by (simp add: shape_def attach_def attach_one_def source_root_def getIdentifier_def
      users_json_def user_def users_record_def users_prepared_def demo_deps_def
      demo_options_def style_def headers_val_def users_response_def OPENAPI_TO_GRAPHQL_def)

lemma users_facts:
  "200 \<le> res_statusCode users_response"
  "res_statusCode users_response \<le> 299"
  "content_type users_response = Some ''application/json''"
  "compatible list_users ''application/json'' = Inr True"
  "str_includes ''application/json'' ''application/json''"
  "json_parse (demo_deps users_response) (res_body users_response) = Some users_json"
  by (simp_all add: users_response_def content_type_def compatible_def list_users_def
      demo_deps_def demo_parse_def)

lemma users_limit_on:
  "addLimitArgument (demo_options \<lparr> provideErrorExtensions := b, addLimitArgument := True \<rparr>)"
  "\<not> list_ex (\<lambda>parameter. param_name parameter = ''limit'') (parameters list_users)"
  by (simp_all add: list_users_def)

lemma lookup_has_key: "lookup ps k \<noteq> VUndef \<Longrightarrow> has_key ps k"
  by (induction ps) (auto split: if_splits)

lemma resolve_json:
  assumes "prepare D operation argsFromLink payloadName opts baseUrl requestOptions
             source args context info = Inr p"
    and "httpRequest D (prep_options p) context = Inr response"
    and "200 \<le> res_statusCode response" and "res_statusCode response \<le> 299"
    and "content_type response = Some ct"
    and "compatible operation ct = Inr True"
    and "str_includes ct ''application/json''"
    and "json_parse D (res_body response) = Some responseBody"
    and "shape D operation opts source info (prep_resolveData p) response responseBody = Inr saneData"
  shows "resolve D operation argsFromLink payloadName opts baseUrl requestOptions
           source args context info
         = apply_limit D opts operation (prep_args p) saneData"
  using assms(3-9)
  by (simp add: resolve_response [OF assms(1,2)] handle_response_def classify_def)

lemma lookup_clone_absent: "k \<notin> fst ` set ps \<Longrightarrow> lookup (clone_props ps) k = VUndef"
  by (induction ps) auto

lemma lookup_clone_props:
  "distinct (map fst ps) \<Longrightarrow> lookup (clone_props ps) k = json_clone (lookup ps k)"
  by (induction ps) (auto simp: lookup_clone_absent)

lemma json_clone_data:
  "json_data v \<Longrightarrow> json_clone v = v"
  "json_elems xs \<Longrightarrow> clone_elems xs = xs"
  "json_props ps \<Longrightarrow> clone_props ps = ps"
  by (induction v and xs and ps rule: json_clone_clone_elems_clone_props.induct) auto

subsection \<open>Responses without a content type\<close>

text \<open>
  C7. For a response with a status code in 200..299 and no (or an empty)
  \<^verbatim>\<open>content-type\<close> header, the resolver returns \<^verbatim>\<open>null\<close> exactly when the operation
  declares no response content type, and where it declares one the resolver fails with
  the error \<^verbatim>\<open>Response does not have a Content-Type header\<close>.
\<close>

theorem no_content_type_header:
  assumes "prepare D operation argsFromLink payloadName opts baseUrl requestOptions
             source args context info = Inr p"
    and "httpRequest D (prep_options p) context = Inr response"
    and "200 \<le> res_statusCode response" and "res_statusCode response \<le> 299"
    and "content_type response = None"
  shows "(resolve D operation argsFromLink payloadName opts baseUrl requestOptions
            source args context info = Inr VNull
          \<longleftrightarrow> responseContentType operation = None)
       \<and> (responseContentType operation \<noteq> None \<longrightarrow>
            resolve D operation argsFromLink payloadName opts baseUrl requestOptions
              source args context info
            = Inl (Error ''Response does not have a Content-Type header''))"
  using assms(3-5)
  by (auto simp add: resolve_response [OF assms(1,2)] handle_response_def classify_def
      split: option.splits)

theorem no_content_type_header_witness:
  "resolve (demo_deps \<lparr> res_statusCode = 204, res_headers = [], res_body = [] \<rparr>)
     (list_users \<lparr> responseContentType := None \<rparr>) [] None
     (demo_options \<lparr> provideErrorExtensions := False, addLimitArgument := True \<rparr>)
     ''http://localhost:3000'' None VUndef [] VNull [Field ''users'']
   = Inr VNull
   \<and> resolve (demo_deps \<lparr> res_statusCode = 200, res_headers = [], res_body = users_body \<rparr>)
     list_users [] None
     (demo_options \<lparr> provideErrorExtensions := False, addLimitArgument := True \<rparr>)
     ''http://localhost:3000'' None VUndef [] VNull [Field ''users'']
   = Inl (Error ''Response does not have a Content-Type header'')"
proof -
  let ?opts = "demo_options \<lparr> provideErrorExtensions := False, addLimitArgument := True \<rparr>"
  let ?empty = "\<lparr> res_statusCode = 204, res_headers = [], res_body = [] \<rparr>"
  let ?bare = "\<lparr> res_statusCode = 200, res_headers = [], res_body = users_body \<rparr>"
  have p1: "parameters (list_users \<lparr> responseContentType := None \<rparr>) = []"
    and p2: "parameters list_users = []"
    by (simp_all add: list_users_def)
  note a = no_content_type_header
      [OF prepare_plain [OF p1, where r = ?empty and b = False and l = True] http_demo]
  note b = no_content_type_header
      [OF prepare_plain [OF p2, where r = ?bare and b = False and l = True] http_demo]
  show ?thesis
    using a [of "''http://localhost:3000''" "[]" "''users''"]
      b [of "''http://localhost:3000''" "[]" "''users''"]
    by (simp add: list_users_def content_type_def)
qed

subsection \<open>Responses with an unexpected content type\<close>

text \<open>
  C6. For a response with a status code in 200..299 and a \<^verbatim>\<open>content-type\<close> header: if
  the received content type is no part of the declared response content type and the
  declared one is no part of the received one, the resolver fails with the error
  \<^verbatim>\<open>Operation ... should have a content-type '...' but has '...' instead\<close>; the body is
  neither parsed nor returned.
\<close>

theorem content_type_mismatch:
  assumes "prepare D operation argsFromLink payloadName opts baseUrl requestOptions
             source args context info = Inr p"
    and "httpRequest D (prep_options p) context = Inr response"
    and "200 \<le> res_statusCode response" and "res_statusCode response \<le> 299"
    and "content_type response = Some ct"
    and "responseContentType operation = Some declared"
    and "\<not> sublist ct declared" and "\<not> sublist declared ct"
  shows "resolve D operation argsFromLink payloadName opts baseUrl requestOptions
           source args context info
         = Inl (Error (''Operation '' @ operationString operation
                         @ '' should have a content-type '' @ quoted declared
                         @ '' but has '' @ quoted ct @ '' instead''))"
  using assms(3-8)
  by (simp add: resolve_response [OF assms(1,2)] handle_response_def classify_def compatible_def
      str_includes_sublist mismatch_error_def opt_val_def)

theorem content_type_mismatch_witness:
  "resolve (demo_deps \<lparr> res_statusCode = 200, res_headers = [(''content-type'', ''text/plain'')],
                          res_body = ''hello'' \<rparr>)
     list_users [] None
     (demo_options \<lparr> provideErrorExtensions := False, addLimitArgument := True \<rparr>)
     ''http://localhost:3000'' None VUndef [] VNull [Field ''users'']
   = Inl (Error ''Operation GET /users should have a content-type 'application/json' but has 'text/plain' instead'')"
proof -
  have a: "\<not> sublist ''text/plain'' ''application/json''"
    unfolding str_includes_sublist [symmetric] by simp
  have b: "\<not> sublist ''application/json'' ''text/plain''"
    unfolding str_includes_sublist [symmetric] by simp
  let ?opts = "demo_options \<lparr> provideErrorExtensions := False, addLimitArgument := True \<rparr>"
  let ?plain = "\<lparr> res_statusCode = 200, res_headers = [(''content-type'', ''text/plain'')],
                  res_body = ''hello'' \<rparr>"
  have p: "parameters list_users = []"
    by (simp add: list_users_def)
  note c = content_type_mismatch
      [OF prepare_plain [OF p, where r = ?plain and b = False and l = True] http_demo,
        where ct = "''text/plain''" and declared = "''application/json''"]
  show ?thesis
    using c [of "''http://localhost:3000''" "[]" "''users''"] a b
    by (simp add: list_users_def content_type_def quoted_def)
qed


subsection \<open>The limit argument\<close>

text \<open>
  C3. Auto-pagination is on, the operation declares no parameter named \<^verbatim>\<open>limit\<close>, and
  the JSON body of a 2xx response is shaped (keys sanitized, record attached) into an
  array \<open>xs\<close> with an element that is an object. If the arguments the resolver holds
  have \<^verbatim>\<open>limit\<close> equal to the number \<open>n\<close>, then for \<open>0 \<le> n\<close> the result is the array
  of the first \<open>n\<close> elements of \<open>xs\<close>, and for \<open>n < 0\<close> the resolver fails with the
  error \<^verbatim>\<open>Auto-generated 'limit' argument must be greater than or equal to 0\<close>.
\<close>

theorem limit_truncates:
  assumes "prepare D operation argsFromLink payloadName opts baseUrl requestOptions
             source args context info = Inr p"
    and "httpRequest D (prep_options p) context = Inr response"
    and "200 \<le> res_statusCode response" and "res_statusCode response \<le> 299"
    and "content_type response = Some ct"
    and "compatible operation ct = Inr True"
    and "str_includes ct ''application/json''"
    and "json_parse D (res_body response) = Some responseBody"
    and "shape D operation opts source info (prep_resolveData p) response responseBody
           = Inr (VArr xs ps)"
    and "list_ex typeof_object xs"
    and "addLimitArgument opts"
    and "\<not> list_ex (\<lambda>parameter. param_name parameter = ''limit'') (parameters operation)"
    and "lookup (prep_args p) ''limit'' = VNum n"
  shows "resolve D operation argsFromLink payloadName opts baseUrl requestOptions
           source args context info
         = (if 0 \<le> n then Inr (VArr (take (nat n) xs) [])
            else Inl (Error ''Auto-generated 'limit' argument must be greater than or equal to 0''))"
proof -
  have "has_key (prep_args p) ''limit''"
    using assms(13) by (simp add: lookup_has_key)
  then show ?thesis
    using assms(10-13)
    by (simp add: resolve_json [OF assms(1-9)] apply_limit_def limit_of_def number_of_def
        limit_error_def quoted_def)
qed

theorem limit_truncates_witness:
  "resolve (demo_deps users_response) list_users [] None
     (demo_options \<lparr> provideErrorExtensions := False, addLimitArgument := True \<rparr>)
     ''http://localhost:3000'' None VUndef [(''limit'', VNum 2)] VNull [Field ''users'']
   = Inr (VArr [user [(''limit'', VNum 2)] 1, user [(''limit'', VNum 2)] 2] [])
   \<and> resolve (demo_deps users_response) list_users [] None
     (demo_options \<lparr> provideErrorExtensions := False, addLimitArgument := True \<rparr>)
     ''http://localhost:3000'' None VUndef [(''limit'', VNum (- 1))] VNull [Field ''users'']
   = Inl (Error ''Auto-generated 'limit' argument must be greater than or equal to 0'')"
proof -
  have some: "list_ex typeof_object [user (assign [] args) 1, user (assign [] args) 2,
      user (assign [] args) 3, user (assign [] args) 4, user (assign [] args) 5]" for args
    by (simp add: user_def)
  have two: "lookup (prep_args (users_prepared [(''limit'', VNum 2)])) ''limit'' = VNum 2"
    and minus: "lookup (prep_args (users_prepared [(''limit'', VNum (- 1))])) ''limit'' = VNum (- 1)"
    by (simp_all add: users_prepared_def)
  show ?thesis
    using limit_truncates [OF users_prepare http_demo users_facts users_shape some users_limit_on two]
      limit_truncates [OF users_prepare http_demo users_facts users_shape some users_limit_on minus]
    by simp
qed

text \<open>
  C9. Auto-pagination is on, the operation declares no parameter named \<^verbatim>\<open>limit\<close>, and
  the JSON body of a 2xx response is shaped into an array with an element that is an
  object. If the arguments the resolver holds after default filling and link
  resolution have no \<^verbatim>\<open>limit\<close>, the resolver fails with the error
  \<^verbatim>\<open>Cannot get value for auto-generated 'limit' argument\<close>.
\<close>

theorem limit_missing:
  assumes "prepare D operation argsFromLink payloadName opts baseUrl requestOptions
             source args context info = Inr p"
    and "httpRequest D (prep_options p) context = Inr response"
    and "200 \<le> res_statusCode response" and "res_statusCode response \<le> 299"
    and "content_type response = Some ct"
    and "compatible operation ct = Inr True"
    and "str_includes ct ''application/json''"
    and "json_parse D (res_body response) = Some responseBody"
    and "shape D operation opts source info (prep_resolveData p) response responseBody
           = Inr (VArr xs ps)"
    and "list_ex typeof_object xs"
    and "addLimitArgument opts"
    and "\<not> list_ex (\<lambda>parameter. param_name parameter = ''limit'') (parameters operation)"
    and "\<not> has_key (prep_args p) ''limit''"
  shows "resolve D operation argsFromLink payloadName opts baseUrl requestOptions
           source args context info
         = Inl (Error ''Cannot get value for auto-generated 'limit' argument'')"
  using assms(10-13)
  by (simp add: resolve_json [OF assms(1-9)] apply_limit_def limit_of_def no_limit_error_def
      quoted_def)

theorem limit_missing_witness:
  "resolve (demo_deps users_response) list_users [] None
     (demo_options \<lparr> provideErrorExtensions := False, addLimitArgument := True \<rparr>)
     ''http://localhost:3000'' None VUndef [] VNull [Field ''users'']
   = Inl (Error ''Cannot get value for auto-generated 'limit' argument'')"
proof -
  have some: "list_ex typeof_object [user (assign [] []) 1, user (assign [] []) 2,
      user (assign [] []) 3, user (assign [] []) 4, user (assign [] []) 5]"
    by (simp add: user_def)
  have none: "\<not> has_key (prep_args (users_prepared [])) ''limit''"
    by (simp add: users_prepared_def)
  show ?thesis
    using limit_missing [OF users_prepare http_demo users_facts users_shape some users_limit_on none]
    by simp
qed

subsection \<open>The runtime expression for the whole response body\<close>

text \<open>
  C10. Evaluated against a parent result that is an object, \<^verbatim>\<open>$response.body\<close> yields
  an object in which \<^verbatim>\<open>_openAPIToGraphQL\<close> is present with the value \<^verbatim>\<open>undefined\<close> and
  every other property is the JSON copy of the parent's property (equal to it for JSON
  data, by \<open>json_clone_data\<close>).
\<close>

theorem response_body_without_record:
  assumes "distinct (map fst ps)"
  shows "\<exists>result.
           resolveRuntimeExpression D paramName ''$response.body'' resolveData (VObj ps) args
             = Inr (VObj result)
           \<and> has_key result OPENAPI_TO_GRAPHQL
           \<and> lookup result OPENAPI_TO_GRAPHQL = VUndef
           \<and> (\<forall>k. k \<noteq> OPENAPI_TO_GRAPHQL \<longrightarrow> lookup result k = json_clone (lookup ps k))"
  using assms
  by (simp add: resolveRuntimeExpression_def json_copy_def lookup_store_same lookup_store_other
      has_key_store lookup_clone_props)


theorem response_body_without_record_witness:
  "resolveRuntimeExpression (demo_deps users_response) ''user'' ''$response.body'' (VObj [])
     (user [] 1) []
   = Inr (VObj [(''id'', VNum 1), (''_openAPIToGraphQL'', VUndef)])"
proof -
  have d: "distinct (map fst [(''id'', VNum 1), (''_openAPIToGraphQL'', VObj [(''data'', VObj [(''users'', users_record [])])])])"
    by simp
  show ?thesis
    using response_body_without_record [OF d, of "demo_deps users_response" "''user''" "VObj []" "[]"]
    by (auto simp add: user_def resolveRuntimeExpression_def json_copy_def OPENAPI_TO_GRAPHQL_def)
qed

subsection \<open>The content-type and accept headers\<close>

text \<open>
  What the two assignments give: \<^verbatim>\<open>accept\<close> is the declared response content type or
  \<^verbatim>\<open>application/json\<close>, and for an operation other than GET \<^verbatim>\<open>content-type\<close> is the
  declared payload content type or \<^verbatim>\<open>application/json\<close>, whatever the header
  parameters had put there.
\<close>

lemma accept_declared:
  "lookup (content_headers operation headers) ''accept''
   = VStr (case responseContentType operation of Some t \<Rightarrow> t | None \<Rightarrow> ''application/json'')"
  by (simp add: content_headers_def lookup_store_same)

lemma content_type_declared:
  "op_method operation \<noteq> HTTP_METHODS_get \<Longrightarrow>
   lookup (content_headers operation headers) ''content-type''
   = VStr (case payloadContentType operation of Some t \<Rightarrow> t | None \<Rightarrow> ''application/json'')"
  by (simp add: content_headers_def lookup_store_same lookup_store_other)

text \<open>
  C1. The headers of the request are not fixed against \<^verbatim>\<open>requestOptions\<close>: for the
  operation \<^verbatim>\<open>GET /users\<close>, which declares the response content type
  \<^verbatim>\<open>application/json\<close>, and \<^verbatim>\<open>requestOptions.headers = {accept: 'text/plain'}\<close>, the
  request that goes to the transport has \<^verbatim>\<open>accept: text/plain\<close>
  (\<^verbatim>\<open>Object.assign(options.headers, headers, requestOptions.headers)\<close> lets the caller's
  headers win; the static headers of the options are assigned later still).
\<close>

theorem request_options_replace_accept:
  "prepare (demo_deps users_response) list_users [] None demo_options ''http://localhost:3000''
     (Some \<lparr> ro_headers = Some [(''accept'', VStr ''text/plain'')], ro_body = VUndef,
              ro_qs = None, ro_baseUrl = None \<rparr>)
     VUndef [] VNull [Field ''users'']
   = Inr ((users_prepared [])
            \<lparr> prep_resolveData :=
                VObj [(''usedParams'', VObj []), (''usedPayload'', VUndef),
                      (''usedRequestOptions'',
                       request_val (users_request \<lparr> req_headers := [(''accept'', VStr ''text/plain'')] \<rparr>)),
                      (''usedStatusCode'', VStr ''200'')],
              prep_options := users_request \<lparr> req_headers := [(''accept'', VStr ''text/plain'')] \<rparr> \<rparr>)"
  by (simp add: prepare_def recover_resolveData_def ensure_usedParams_def list_users_def
      record_usedParams_def extractRequestDataFromArgs_def record_payload_def request_of_def
      with_body_def build_options_def
      content_headers_def HTTP_METHODS_get_def add_auth_def add_static_def source_root_def
      add_oauth_def createOAuthHeader_def createOAuthQS_def extractToken_def users_request_def
      request_val_def opt_val_def demo_options_def users_prepared_def)

subsection \<open>Default values\<close>

lemma truthy_default_injected:
  assumes "lookup args (sanitize D (param_name param) (style opts)) = VUndef"
    and "param_schema param = Some schemaOrRef"
    and "schema_of D schemaOrRef = Some schema"
    and "truthy (schema_default schema)"
  shows "fill_default D opts param args
         = store args (sanitize D (param_name param) (style opts)) (schema_default schema)"
  using assms by (auto simp add: fill_default_def injected_default_def)

text \<open>
  C2. A default that is falsy is not injected: for a parameter \<^verbatim>\<open>offset\<close> whose schema
  declares the default \<^verbatim>\<open>0\<close> and arguments without \<^verbatim>\<open>offset\<close>, default filling
  leaves the arguments empty (the test \<^verbatim>\<open>schema.default && ...\<close> is one of truthiness).
\<close>

theorem falsy_default_not_injected:
  "fill_defaults D opts
     [\<lparr> param_name = ''offset'', param_in = ''query'',
        param_schema = Some (Inline \<lparr> schema_default = VNum 0 \<rparr>) \<rparr>] []
   = []"
  by (simp add: fill_default_def injected_default_def schema_of_def)

subsection \<open>Link parameters\<close>

text \<open>
  The two examples of the specification: the expression \<^verbatim>\<open>$response.body#/id\<close> against
  the parent result \<^verbatim>\<open>{"id": "42"}\<close> gives \<^verbatim>\<open>"42"\<close>, and the text
  \<^verbatim>\<open>user_{$response.body#/id}\<close> gives \<^verbatim>\<open>user_42\<close>.
\<close>

lemma link_value_expression:
  "link_value (demo_deps users_response) ''userId'' ''$response.body#/id'' (VObj [])
     (VObj [(''id'', VStr ''42'')]) []
   = Inr (VStr ''42'')"
  by (simp add: link_value_def resolveRuntimeExpression_def split_val_def demo_deps_def
      demo_jsonpath_def isRuntimeExpression_def RUNTIME_REFERENCES_def)

lemma link_value_example:
  "link_value (demo_deps users_response) ''userId'' ''user_{$response.body#/id}'' (VObj [])
     (VObj [(''id'', VStr ''42'')]) []
   = Inr (VStr ''user_42'')"
  by (simp add: link_value_def resolveRuntimeExpression_def split_val_def demo_deps_def
      demo_jsonpath_def str_replace_def)

text \<open>
  C5. The value of a braced expression is not always substituted as it is:
  \<^verbatim>\<open>value.replace(linkParam, ...)\<close> reads it as a replacement template, so for the parent
  result \<^verbatim>\<open>{"id": "a$$b"}\<close> the text \<^verbatim>\<open>user_{$response.body#/id}\<close> becomes
  \<^verbatim>\<open>user_a$b\<close>, not \<^verbatim>\<open>user_a$$b\<close>.
\<close>

theorem dollar_in_link_value:
  "link_value (demo_deps users_response) ''userId'' ''user_{$response.body#/id}'' (VObj [])
     (VObj [(''id'', VStr ''a$$b'')]) []
   = Inr (VStr ''user_a$b'')"
  by (simp add: link_value_def resolveRuntimeExpression_def split_val_def demo_deps_def
      demo_jsonpath_def str_replace_def)

subsection \<open>The record of the parent\<close>

lemma frame_refl: "frame A h h"
  by (simp add: frame_def)

lemma frame_trans: "frame A h h1 \<Longrightarrow> frame A h1 h2 \<Longrightarrow> frame A h h2"
  by (auto simp add: frame_def)

lemma frame_mono: "frame A h h' \<Longrightarrow> A \<subseteq> B \<Longrightarrow> frame B h h'"
  by (auto simp add: frame_def)

lemma new_cell_frame: "new_cell obj h = (r, h') \<Longrightarrow> frame {} h h'"
  by (auto simp add: new_cell_def frame_def)

lemma alloc_frame:
  "alloc v h = (w, h') \<Longrightarrow> frame {} h h'"
  "alloc_elems xs h = (ys, h') \<Longrightarrow> frame {} h h'"
  "alloc_props ps h = (qs, h') \<Longrightarrow> frame {} h h'"
proof (induction v h and xs h and ps h arbitrary: w h' and ys h' and qs h'
    rule: alloc_alloc_elems_alloc_props.induct)
  case (1 v h)
  then show ?case by (simp add: frame_refl)
next
  case (2 ps h)
  then show ?case
    by (auto split: prod.splits dest: new_cell_frame intro: frame_trans)
next
  case (3 xs ps h)
  obtain ys1 h1 where a: "alloc_elems xs h = (ys1, h1)"
    by (cases "alloc_elems xs h")
  obtain qs1 h2 where b: "alloc_props ps h1 = (qs1, h2)"
    by (cases "alloc_props ps h1")
  from 3(3) a b have c: "new_cell (HArr ys1 qs1) h2 = (w, h')"
    by simp
  have "frame {} h h1"
    using 3(1) a by simp
  moreover have "frame {} h1 h2"
    using 3(2) a b by simp
  moreover have "frame {} h2 h'"
    using c by (rule new_cell_frame)
  ultimately show ?case
    by (blast intro: frame_trans)
next
  case (4 h)
  then show ?case by (simp add: frame_refl)
next
  case (5 x xs h)
  then show ?case
    by (auto split: prod.splits intro: frame_trans)
next
  case (6 h)
  then show ?case by (simp add: frame_refl)
next
  case (7 k v ps h)
  then show ?case
    by (auto split: prod.splits intro: frame_trans)
qed

lemma cell_store_frame: "frame {a} h (cell_store a k w h)"
  by (auto simp add: cell_store_def frame_def split: option.splits)

lemma cell_assign_frame: "frame {a} h (cell_assign a src h)"
proof (induction src arbitrary: h)
  case Nil
  then show ?case by (simp add: frame_refl)
next
  case (Cons p src)
  obtain k w where "p = (k, w)" by (cases p)
  with Cons show ?case
    by (auto intro: frame_trans cell_store_frame)
qed

lemma m_set_frame: "m_set t k v h = (r, h') \<Longrightarrow> frame (target t) h h'"
proof (cases t)
  case (MH u)
  assume run: "m_set t k v h = (r, h')"
  show ?thesis
  proof (cases u)
    case (HRef a)
    obtain w h1 where a: "alloc v h = (w, h1)"
      by (cases "alloc v h")
    with run MH HRef have h': "h' = cell_store a k w h1"
      by simp
    have "frame {a} h h1"
      using alloc_frame(1) [OF a] by (rule frame_mono) simp
    with h' MH HRef show ?thesis
      by (auto intro: frame_trans cell_store_frame)
  qed (use run MH in \<open>auto simp add: frame_refl\<close>)
qed (auto simp add: frame_refl)

lemma stable_mono: "stable P B \<Longrightarrow> C \<subseteq> B \<Longrightarrow> stable P C"
  unfolding stable_def using frame_mono by blast

lemma writes_bind:
  assumes "writes P A m G" and "\<And>x. G x \<Longrightarrow> writes P A (f x) G'"
  shows "writes P A (hbind m f) G'"
  unfolding writes_def
proof (intro allI impI)
  fix h r h'
  assume P: "P h" and run: "hbind m f h = (r, h')"
  obtain r1 h1 where m: "m h = (r1, h1)"
    by (cases "m h")
  from assms(1) P m have 1: "frame A h h1" "P h1" "\<forall>x. r1 = Inr x \<longrightarrow> G x"
    by (auto simp add: writes_def)
  show "frame A h h' \<and> P h' \<and> (\<forall>x. r = Inr x \<longrightarrow> G' x)"
  proof (cases r1)
    case (Inl e)
    with run m 1 show ?thesis
      by (auto simp add: hbind_def)
  next
    case (Inr x)
    with run m have f: "f x h1 = (r, h')"
      by (simp add: hbind_def)
    from Inr 1 have "G x" by simp
    from assms(2) [OF this] 1(2) f
    have "frame A h1 h'" "P h'" "\<forall>y. r = Inr y \<longrightarrow> G' y"
      by (auto simp add: writes_def)
    with 1(1) show ?thesis
      by (blast intro: frame_trans)
  qed
qed

lemma writes_ok: "G x \<Longrightarrow> writes P A (ok x) G"
  by (simp add: writes_def ok_def frame_refl)

lemma writes_failing: "writes P A (failing e) G"
  by (simp add: writes_def failing_def frame_refl)

lemma writes_reading:
  "(\<And>h x. P h \<Longrightarrow> f h = Inr x \<Longrightarrow> G x) \<Longrightarrow> writes P A (reading f) G"
  by (auto simp add: writes_def reading_def frame_refl)

lemma writes_weaken:
  "writes P A m G \<Longrightarrow> (\<And>x. G x \<Longrightarrow> G' x) \<Longrightarrow> writes P A m G'"
  by (auto simp add: writes_def)

lemma writes_step:
  assumes "stable P B" and "B \<subseteq> A"
    and "\<And>h r h'. m h = (r, h') \<Longrightarrow> frame B h h' \<and> (\<forall>x. r = Inr x \<longrightarrow> G x)"
  shows "writes P A m G"
  unfolding writes_def
proof (intro allI impI)
  fix h r h'
  assume P: "P h" and run: "m h = (r, h')"
  from assms(3) [OF run] have f: "frame B h h'" and g: "\<forall>x. r = Inr x \<longrightarrow> G x"
    by simp_all
  from assms(1) P f have "P h'"
    by (auto simp add: stable_def)
  with f g assms(2) show "frame A h h' \<and> P h' \<and> (\<forall>x. r = Inr x \<longrightarrow> G x)"
    by (auto intro: frame_mono)
qed

lemma pure_target: "pure_m v \<Longrightarrow> target v = {}"
  by (cases v rule: target.cases) auto

lemma m_of_val_pure:
  "pure_m (m_of_val v)" "pure_elems (m_of_elems xs)" "pure_props (m_of_props ps)"
  by (induction v and xs and ps rule: m_of_val_m_of_elems_m_of_props.induct) auto

lemma pure_store: "pure_props ps \<Longrightarrow> pure_m v \<Longrightarrow> pure_props (store ps k v)"
  by (induction ps) auto

lemma pure_mlookup: "pure_props ps \<Longrightarrow> pure_m (mlookup ps k)"
  by (induction ps) auto

lemma pure_index_from: "pure_elems xs \<Longrightarrow> pure_props (index_from i xs)"
  by (induction xs arbitrary: i) auto

lemma pure_append: "pure_props ps \<Longrightarrow> pure_props qs \<Longrightarrow> pure_props (ps @ qs)"
  by (induction ps) auto

lemma hlookup_chars: "hlookup (index_from i (map (\<lambda>c. HStr [c]) s)) k \<noteq> HRef a"
  by (induction s arbitrary: i) auto

lemma h_get_prim: "(\<And>a. u \<noteq> HRef a) \<Longrightarrow> h_get h u k = Inr w \<Longrightarrow> w \<noteq> HRef b"
  by (cases u) (auto simp add: hlookup_chars split: if_splits)

lemma m_get_pure: "pure_m v \<Longrightarrow> m_get h v k = Inr w \<Longrightarrow> pure_m w"
proof (cases v)
  case (MH u)
  assume p: "pure_m v" and g: "m_get h v k = Inr w"
  from p MH have nr: "\<And>a. u \<noteq> HRef a"
    by auto
  from g MH obtain w' where w: "h_get h u k = Inr w'" "w = MH w'"
    by (cases "h_get h u k") auto
  from h_get_prim [OF nr w(1)] have "\<And>b. w' \<noteq> HRef b" .
  with w(2) show ?thesis
    by (cases w') auto
next
  case (MObj ps)
  assume "pure_m v" and "m_get h v k = Inr w"
  with MObj show ?thesis
    by (auto simp add: pure_mlookup)
next
  case (MArr xs ps)
  assume "pure_m v" and "m_get h v k = Inr w"
  with MArr show ?thesis
    by (auto simp add: pure_mlookup pure_index_from pure_append split: if_splits)
qed

lemma m_set_inline:
  "target t = {} \<Longrightarrow> m_set t k v h = (r, h') \<Longrightarrow> h' = h \<and> (\<forall>x. r = Inr x \<longrightarrow> target x = {})"
  by (cases "(t, k, v, h)" rule: m_set.cases) auto

lemma m_set_pure:
  "pure_m t \<Longrightarrow> pure_m v \<Longrightarrow> m_set t k v h = (r, h')
   \<Longrightarrow> h' = h \<and> (\<forall>x. r = Inr x \<longrightarrow> pure_m x)"
  by (cases "(t, k, v, h)" rule: m_set.cases) (auto simp add: pure_store)

lemma m_object_assign_inline:
  "target t = {} \<Longrightarrow> m_object_assign t src h = (r, h')
   \<Longrightarrow> h' = h \<and> (\<forall>x. r = Inr x \<longrightarrow> target x = {})"
  by (cases "(t, src, h)" rule: m_object_assign.cases) auto

lemma bind_Inr: "bind m f = Inr y \<longleftrightarrow> (\<exists>x. m = Inr x \<and> f x = Inr y)"
  by (cases m) auto

lemma recover_h_pure: "recover_h source info h = Inr rd \<Longrightarrow> pure_m rd"
  by (auto simp add: recover_h_def json_copy_h_def m_of_val_pure bind_Inr split: if_splits)

lemma writes_same:
  "(\<And>h r h'. m h = (r, h') \<Longrightarrow> h' = h \<and> (\<forall>x. r = Inr x \<longrightarrow> G x)) \<Longrightarrow> writes P A m G"
  unfolding writes_def using frame_refl by blast

lemma writes_m_set:
  "stable P (target t) \<Longrightarrow> target t \<subseteq> A \<Longrightarrow> writes P A (m_set t k v) (\<lambda>r. True)"
  by (rule writes_step [where B = "target t"]) (auto dest: m_set_frame)

lemma writes_m_set_inline:
  "target t = {} \<Longrightarrow> writes P A (m_set t k v) (\<lambda>r. target r = {})"
  by (rule writes_same) (auto dest: m_set_inline)

lemma ensure_writes:
  assumes "pure_m rd"
  shows "writes P A (ensure_usedParams_m rd) pure_m"
  unfolding ensure_usedParams_m_def
proof (rule writes_bind [where G = pure_m])
  show "writes P A (reading (\<lambda>h. m_get h rd ''usedParams'')) pure_m"
    using assms by (auto intro!: writes_reading dest: m_get_pure)
next
  fix u assume "pure_m u"
  have "writes P A (m_set rd ''usedParams'' (MObj [])) pure_m"
    by (rule writes_same) (rule m_set_pure [OF assms], simp_all)
  then show "writes P A (if u = MH HUndef then m_set rd ''usedParams'' (MObj []) else ok rd) pure_m"
    using assms by (auto intro: writes_ok)
qed

lemma fill_default_writes:
  assumes "stable P (target (MH args))" and "target (MH args) \<subseteq> A"
  shows "writes P A (fill_default_h D opts param args) (\<lambda>r. True)"
  unfolding fill_default_h_def
proof (rule writes_bind [where G = "\<lambda>r. True"])
  show "writes P A (reading (\<lambda>h. h_get h args (sanitize D (param_name param) (style opts))))
          (\<lambda>r. True)"
    by (rule writes_reading) simp
next
  fix current
  show "writes P A
          (if current = HUndef then
             (case injected_default D param of
                Some default_value \<Rightarrow>
                  hbind (m_set (MH args) (sanitize D (param_name param) (style opts))
                           (m_of_val default_value))
                    (\<lambda>r. ok ())
              | None \<Rightarrow> ok ())
           else ok ())
          (\<lambda>r. True)"
    using assms
    by (auto split: option.splits
        intro!: writes_ok writes_bind [where G = "\<lambda>r. True"] writes_m_set)
qed

lemma fill_defaults_writes:
  assumes "stable P (target (MH args))" and "target (MH args) \<subseteq> A"
  shows "writes P A (fill_defaults_h D opts params args) (\<lambda>r. True)"
proof (induction params)
  case Nil
  show ?case by (simp add: writes_ok)
next
  case (Cons param rest)
  show ?case
    using fill_default_writes [OF assms] Cons
    by (auto intro: writes_bind [where G = "\<lambda>r. True"])
qed

lemma resolve_links_writes:
  assumes "stable P (target (MH args))" and "target (MH args) \<subseteq> A"
  shows "writes P A (resolve_links_h D opts links rd source args) (\<lambda>r. True)"
proof (induction links)
  case Nil
  show ?case by (simp add: writes_ok)
next
  case (Cons link rest)
  obtain paramName v where link: "link = (paramName, v)"
    by (cases link)
  have r: "writes P A (reading (link_value_h D paramName v rd source args)) (\<lambda>r. True)"
    by (rule writes_reading) simp
  show ?case
    unfolding link resolve_links_h.simps
    by (rule writes_bind [OF r], rule writes_bind [OF writes_m_set [OF assms]], rule Cons)
qed

lemma record_usedParams_writes:
  assumes "pure_m rd"
  shows "writes P A (record_usedParams_m rd args) (\<lambda>r. target r = {})"
  unfolding record_usedParams_m_def
proof (rule writes_bind [where G = pure_m])
  show "writes P A (reading (\<lambda>h. m_get h rd ''usedParams'')) pure_m"
    using assms by (auto intro!: writes_reading dest: m_get_pure)
next
  fix u assume u: "pure_m u"
  have a: "writes P A (m_object_assign u args) (\<lambda>r. True)"
    by (rule writes_same) (use m_object_assign_inline [OF pure_target [OF u]] in blast)
  show "writes P A (hbind (m_object_assign u args) (m_set rd ''usedParams''))
          (\<lambda>r. target r = {})"
    by (rule writes_bind [OF a]) (use assms in \<open>auto intro: writes_m_set_inline simp add: pure_target\<close>)
qed

lemma record_payload_writes:
  assumes "target rd = {}"
  shows "writes P A (record_payload_m D opts operation payloadName a rd) (\<lambda>r. target r = {})"
  unfolding record_payload_m_def
  by (rule writes_bind [OF writes_m_set_inline [OF assms]])
    (auto split: option.splits intro: writes_ok writes_m_set_inline)

lemma prepare_writes:
  assumes "stable P (target (MH args))" and "target (MH args) \<subseteq> A"
  shows "writes P A
           (prepare_h D operation argsFromLink payloadName opts baseUrl requestOptions
              source args context info)
           (\<lambda>p. target (fst p) = {})"
  unfolding prepare_h_def
proof (rule writes_bind [where G = pure_m])
  show "writes P A (reading (recover_h source info)) pure_m"
    by (rule writes_reading) (rule recover_h_pure)
next
  fix rd0 assume "pure_m rd0"
  then have e: "writes P A (ensure_usedParams_m rd0) pure_m"
    by (rule ensure_writes)
  show "writes P A
          (hbind (ensure_usedParams_m rd0)
             (\<lambda>rd1.
                hbind (fill_defaults_h D opts (parameters operation) args)
                  (\<lambda>r. hbind (resolve_links_h D opts argsFromLink rd1 source args)
                     (\<lambda>r. hbind (record_usedParams_m rd1 args)
                        (\<lambda>rd2. hbind (reading (args_view args))
                           (\<lambda>a. hbind (record_payload_m D opts operation payloadName a rd2)
                              (\<lambda>rd3. hbind (reading (request_of_h D operation payloadName opts
                                                        baseUrl requestOptions source a context))
                                 (\<lambda>req. hbind (m_set rd3 ''usedRequestOptions''
                                                  (m_of_val (request_val req)))
                                    (\<lambda>rd4. hbind (m_set rd4 ''usedStatusCode''
                                                     (MH (HStr (statusCode operation))))
                                       (\<lambda>rd5. ok (rd5, req)))))))))))
          (\<lambda>p. target (fst p) = {})"
  proof (rule writes_bind [OF e])
    fix rd1 assume rd1: "pure_m rd1"
    show "writes P A
            (hbind (fill_defaults_h D opts (parameters operation) args)
                  (\<lambda>r. hbind (resolve_links_h D opts argsFromLink rd1 source args)
                     (\<lambda>r. hbind (record_usedParams_m rd1 args)
                        (\<lambda>rd2. hbind (reading (args_view args))
                           (\<lambda>a. hbind (record_payload_m D opts operation payloadName a rd2)
                              (\<lambda>rd3. hbind (reading (request_of_h D operation payloadName opts
                                                        baseUrl requestOptions source a context))
                                 (\<lambda>req. hbind (m_set rd3 ''usedRequestOptions''
                                                  (m_of_val (request_val req)))
                                    (\<lambda>rd4. hbind (m_set rd4 ''usedStatusCode''
                                                     (MH (HStr (statusCode operation))))
                                       (\<lambda>rd5. ok (rd5, req))))))))))
            (\<lambda>p. target (fst p) = {})"
      apply (rule writes_bind [OF fill_defaults_writes [OF assms]])
      apply (rule writes_bind [OF resolve_links_writes [OF assms]])
      apply (rule writes_bind [OF record_usedParams_writes [OF rd1]])
      apply (rule writes_bind [where G = "\<lambda>r. True"])
       apply (rule writes_reading, simp)
      apply (rule writes_bind [OF record_payload_writes], assumption)
      apply (rule writes_bind [where G = "\<lambda>r. True"])
       apply (rule writes_reading, simp)
      apply (rule writes_bind [OF writes_m_set_inline], assumption)
      apply (rule writes_bind [OF writes_m_set_inline], assumption)
      apply (rule writes_ok, simp)
      done
  qed
qed

lemma parent_kept_stable:
  "s \<notin> B \<Longrightarrow> t \<notin> B \<Longrightarrow> d \<notin> B \<Longrightarrow> stable (parent_kept s t d sps tps dps ident) B"
  by (auto simp add: stable_def parent_kept_def frame_def)

lemma hlookup_store: "hlookup (store ps k v) k' = (if k' = k then v else hlookup ps k')"
  by (induction ps) auto

lemma parent_kept_store:
  assumes "parent_kept s t d sps tps dps ident h" and "d \<noteq> s" and "d \<noteq> t"
  shows "parent_kept s t d sps tps dps ident (cell_store d ident w h)"
  using assms
  by (auto simp add: parent_kept_def cell_store_def hlookup_store has_key_store)

lemma m_set_data:
  assumes P: "parent_kept s t d sps tps dps ident h" and "d \<noteq> s" and "d \<noteq> t"
    and run: "m_set (MH (HRef d)) ident v h = (r, h')"
  shows "frame {d} h h' \<and> parent_kept s t d sps tps dps ident h'"
proof -
  obtain w h1 where a: "alloc v h = (w, h1)"
    by (cases "alloc v h")
  with run have h': "h' = cell_store d ident w h1"
    by simp
  have f: "frame {} h h1"
    using a by (rule alloc_frame(1))
  have "stable (parent_kept s t d sps tps dps ident) {}"
    by (rule parent_kept_stable) simp_all
  with P f have "parent_kept s t d sps tps dps ident h1"
    by (auto simp add: stable_def)
  then have "parent_kept s t d sps tps dps ident h'"
    unfolding h' using assms(2,3) by (rule parent_kept_store)
  moreover have "frame {d} h h'"
    using run m_set_frame by fastforce
  ultimately show ?thesis by simp
qed

lemma writes_data_set:
  assumes "pure_m dv \<or> dv = MH (HRef d)" and "d \<in> A" and "d \<noteq> s" and "d \<noteq> t"
  shows "writes (parent_kept s t d sps tps dps ident) A (m_set dv ident v) (\<lambda>r. True)"
proof (cases "pure_m dv")
  case True
  then have "target dv = {}" by (rule pure_target)
  then show ?thesis
    by (auto intro: writes_weaken [OF writes_m_set_inline])
next
  case False
  with assms(1) have dv: "dv = MH (HRef d)" by simp
  show ?thesis
    unfolding writes_def dv
  proof (intro allI impI)
    fix h r h'
    assume P: "parent_kept s t d sps tps dps ident h"
      and run: "m_set (MH (HRef d)) ident v h = (r, h')"
    from m_set_data [OF P assms(3,4) run]
    have "frame {d} h h'" and P': "parent_kept s t d sps tps dps ident h'"
      by simp_all
    then have "frame A h h'"
      using assms(2) by (auto intro: frame_mono)
    with P' show "frame A h h' \<and> parent_kept s t d sps tps dps ident h' \<and> (\<forall>x. r = Inr x \<longrightarrow> True)"
      by simp
  qed
qed

lemma mlookup_assign:
  "distinct (map fst qs) \<Longrightarrow>
   mlookup (assign ps qs) k = (if has_key qs k then mlookup qs k else mlookup ps k)"
proof (induction qs arbitrary: ps)
  case Nil
  show ?case by simp
next
  case (Cons q qs)
  obtain k' v where q: "q = (k', v)" by (cases q)
  have nk: "\<not> has_key qs k'"
    using Cons.prems q by (induction qs) auto
  have ml: "mlookup (store ps k' v) k = (if k = k' then v else mlookup ps k)" for ps
    by (induction ps) auto
  from Cons q nk ml show ?case
    by auto
qed

lemma mlookup_append:
  "mlookup (ys @ qs) k = (if has_key ys k then mlookup ys k else mlookup qs k)"
  by (induction ys) auto

lemma mlookup_lifted: "mlookup (lifted ps) k = MH (hlookup ps k)"
  by (induction ps) (auto simp add: lifted_def)

lemma has_key_lifted: "has_key (lifted ps) k = has_key ps k"
  by (induction ps) (auto simp add: lifted_def)

lemma distinct_lifted: "map fst (lifted ps) = map fst ps"
  by (induction ps) (auto simp add: lifted_def)

lemma hlookup_has_key: "hlookup ps k = HRef a \<Longrightarrow> has_key ps k"
  by (induction ps) (auto split: if_splits)

lemma source_root_parent:
  assumes "parent_kept s t d sps tps dps ident h"
    and "hlookup sps OPENAPI_TO_GRAPHQL = HRef t"
  shows "source_root_h (HRef s) h = Some (HRef t)"
  using assms by (simp add: source_root_h_def parent_kept_def OPENAPI_TO_GRAPHQL_def)

lemma inherit_data:
  assumes P: "parent_kept s t d sps tps dps ident h"
    and root: "hlookup sps OPENAPI_TO_GRAPHQL = HRef t"
    and data: "hlookup tps ''data'' = HRef d" and keys: "distinct (map fst tps)"
    and pure: "pure_m h1"
    and run: "inherit (HRef s) h1 h = (r, h')"
  shows "h' = h \<and> (\<forall>h2. r = Inr h2 \<longrightarrow>
            (\<forall>g dv. m_get g h2 ''data'' = Inr dv \<longrightarrow> pure_m dv \<or> dv = MH (HRef d)))"
proof -
  have own: "h_own_props h (HRef t) = tps"
    using P by (simp add: parent_kept_def)
  have run': "m_assigned_in_place h1 (HRef t) h = (r, h')"
    using run source_root_parent [OF P root] by (simp add: inherit_def)
  have got: "mlookup (assign ps (lifted tps)) ''data'' = MH (HRef d)" for ps
    using keys data hlookup_has_key [OF data]
    by (simp add: mlookup_assign distinct_lifted has_key_lifted mlookup_lifted)
  show ?thesis
  proof (cases h1)
    case (MH u)
    with pure have nr: "\<And>a. u \<noteq> HRef a" by auto
    have "pure_m dv" if "h_get g u ''data'' = Inr w" "dv = MH w" for g w dv
      using h_get_prim [OF nr that(1)] that(2) by (cases w) auto
    with run' MH nr show ?thesis
      by (cases u) (auto simp add: bind_Inr)
  next
    case (MObj ps)
    with run' own got show ?thesis
      by auto
  next
    case (MArr xs ps)
    from pure MArr have "pure_props (index_from 0 xs)"
      by (simp add: pure_index_from)
    then have "pure_m (mlookup (index_from 0 xs) ''data'')"
      by (rule pure_mlookup)
    then have "pure_m dv \<or> dv = MH (HRef d)"
      if "dv = mlookup (index_from 0 xs @ assign ps (lifted tps)) ''data''" for dv
      unfolding that mlookup_append got by simp
    with run' MArr own show ?thesis
      by auto
  qed
qed

lemma inherit_writes:
  assumes "hlookup sps OPENAPI_TO_GRAPHQL = HRef t"
    and "hlookup tps ''data'' = HRef d" and "distinct (map fst tps)"
    and "pure_m h1"
  shows "writes (parent_kept s t d sps tps dps ident) A (inherit (HRef s) h1)
           (\<lambda>h2. \<forall>g dv. m_get g h2 ''data'' = Inr dv \<longrightarrow> pure_m dv \<or> dv = MH (HRef d))"
  unfolding writes_def
proof (intro allI impI)
  fix h r h'
  assume P: "parent_kept s t d sps tps dps ident h" and run: "inherit (HRef s) h1 h = (r, h')"
  from inherit_data [OF P assms run] P
  show "frame A h h' \<and> parent_kept s t d sps tps dps ident h' \<and>
        (\<forall>x. r = Inr x \<longrightarrow>
           (\<forall>g dv. m_get g x ''data'' = Inr dv \<longrightarrow> pure_m dv \<or> dv = MH (HRef d)))"
    by (simp add: frame_refl)
qed

lemma attach_one_writes:
  assumes root: "hlookup sps OPENAPI_TO_GRAPHQL = HRef t"
    and data: "hlookup tps ''data'' = HRef d" and keys: "distinct (map fst tps)"
    and dA: "d \<in> A" and ds: "d \<noteq> s" and dt: "d \<noteq> t"
    and ident: "getIdentifier info = Inr ident"
    and el: "pure_m element"
  shows "writes (parent_kept s t d sps tps dps ident) A
           (attach_one_m (HRef s) info record element) (\<lambda>r. True)"
  unfolding attach_one_m_def
proof (rule writes_bind [where G = pure_m])
  show "writes (parent_kept s t d sps tps dps ident) A
          (reading (\<lambda>h. m_get h element OPENAPI_TO_GRAPHQL)) pure_m"
    using el by (auto intro!: writes_reading dest: m_get_pure)
next
  fix h0 :: mval
  show "writes (parent_kept s t d sps tps dps ident) A
          (hbind (if h0 = MH HUndef
                  then m_set element OPENAPI_TO_GRAPHQL (MObj [(''data'', MObj [])])
                  else ok element)
             (\<lambda>element1.
                hbind (reading (\<lambda>h. m_get h element1 OPENAPI_TO_GRAPHQL))
                  (\<lambda>h1. hbind (inherit (HRef s) h1)
                     (\<lambda>h2. hbind (reading (\<lambda>h. m_get h h2 ''data''))
                        (\<lambda>d. hbind (reading (\<lambda>h. getIdentifier info))
                           (\<lambda>identifier. hbind (m_set d identifier record)
                              (\<lambda>d'. ok (put_back element1 OPENAPI_TO_GRAPHQL
                                           (put_back h2 ''data'' d')))))))))
          (\<lambda>r. True)"
  proof (rule writes_bind [where G = pure_m])
    have "writes (parent_kept s t d sps tps dps ident) A
            (m_set element OPENAPI_TO_GRAPHQL (MObj [(''data'', MObj [])])) pure_m"
    proof (rule writes_same)
      fix h r h'
      assume "m_set element OPENAPI_TO_GRAPHQL (MObj [(''data'', MObj [])]) h = (r, h')"
      with el show "h' = h \<and> (\<forall>x. r = Inr x \<longrightarrow> pure_m x)"
        by (intro m_set_pure [where v = "MObj [(''data'', MObj [])]"]) simp_all
    qed
    then show "writes (parent_kept s t d sps tps dps ident) A
            (if h0 = MH HUndef
             then m_set element OPENAPI_TO_GRAPHQL (MObj [(''data'', MObj [])])
             else ok element) pure_m"
      using el by (simp add: writes_ok)
  next
    fix element1 assume e1: "pure_m element1"
    show "writes (parent_kept s t d sps tps dps ident) A
            (hbind (reading (\<lambda>h. m_get h element1 OPENAPI_TO_GRAPHQL))
               (\<lambda>h1. hbind (inherit (HRef s) h1)
                  (\<lambda>h2. hbind (reading (\<lambda>h. m_get h h2 ''data''))
                     (\<lambda>d. hbind (reading (\<lambda>h. getIdentifier info))
                        (\<lambda>identifier. hbind (m_set d identifier record)
                           (\<lambda>d'. ok (put_back element1 OPENAPI_TO_GRAPHQL
                                        (put_back h2 ''data'' d'))))))))
            (\<lambda>r. True)"
    proof (rule writes_bind [where G = pure_m])
      show "writes (parent_kept s t d sps tps dps ident) A
              (reading (\<lambda>h. m_get h element1 OPENAPI_TO_GRAPHQL)) pure_m"
        using e1 by (auto intro!: writes_reading dest: m_get_pure)
    next
      fix h1 assume h1: "pure_m h1"
      show "writes (parent_kept s t d sps tps dps ident) A
              (hbind (inherit (HRef s) h1)
                 (\<lambda>h2. hbind (reading (\<lambda>h. m_get h h2 ''data''))
                    (\<lambda>d. hbind (reading (\<lambda>h. getIdentifier info))
                       (\<lambda>identifier. hbind (m_set d identifier record)
                          (\<lambda>d'. ok (put_back element1 OPENAPI_TO_GRAPHQL
                                       (put_back h2 ''data'' d')))))))
              (\<lambda>r. True)"
      proof (rule writes_bind [OF inherit_writes [OF root data keys h1]])
        fix h2
        assume h2: "\<forall>g dv. m_get g h2 ''data'' = Inr dv \<longrightarrow> pure_m dv \<or> dv = MH (HRef d)"
        show "writes (parent_kept s t d sps tps dps ident) A
                (hbind (reading (\<lambda>h. m_get h h2 ''data''))
                   (\<lambda>d. hbind (reading (\<lambda>h. getIdentifier info))
                      (\<lambda>identifier. hbind (m_set d identifier record)
                         (\<lambda>d'. ok (put_back element1 OPENAPI_TO_GRAPHQL
                                      (put_back h2 ''data'' d'))))))
                (\<lambda>r. True)"
        proof (rule writes_bind [where G = "\<lambda>dv. pure_m dv \<or> dv = MH (HRef d)"])
          show "writes (parent_kept s t d sps tps dps ident) A
                  (reading (\<lambda>h. m_get h h2 ''data'')) (\<lambda>dv. pure_m dv \<or> dv = MH (HRef d))"
            using h2 by (auto intro!: writes_reading)
        next
          fix dv assume dv: "pure_m dv \<or> dv = MH (HRef d)"
          show "writes (parent_kept s t d sps tps dps ident) A
                  (hbind (reading (\<lambda>h. getIdentifier info))
                     (\<lambda>identifier. hbind (m_set dv identifier record)
                        (\<lambda>d'. ok (put_back element1 OPENAPI_TO_GRAPHQL
                                     (put_back h2 ''data'' d')))))
                  (\<lambda>r. True)"
          proof (rule writes_bind [where G = "\<lambda>i. i = ident"])
            show "writes (parent_kept s t d sps tps dps ident) A
                    (reading (\<lambda>h. getIdentifier info)) (\<lambda>i. i = ident)"
              using ident by (auto intro!: writes_reading)
          next
            fix key assume i: "key = ident"
            show "writes (parent_kept s t d sps tps dps ident) A
                    (hbind (m_set dv key record)
                       (\<lambda>d'. ok (put_back element1 OPENAPI_TO_GRAPHQL
                                    (put_back h2 ''data'' d'))))
                    (\<lambda>r. True)"
              unfolding i
              by (rule writes_bind [OF writes_data_set [OF dv dA ds dt]]) (simp add: writes_ok)
          qed
        qed
      qed
    qed
  qed
qed

lemma attach_all_writes:
  assumes "hlookup sps OPENAPI_TO_GRAPHQL = HRef t"
    and "hlookup tps ''data'' = HRef d" and "distinct (map fst tps)"
    and "d \<in> A" and "d \<noteq> s" and "d \<noteq> t"
    and "getIdentifier info = Inr ident"
  shows "pure_elems xs \<Longrightarrow>
         writes (parent_kept s t d sps tps dps ident) A
           (attach_all_m (HRef s) info record xs) (\<lambda>r. True)"
proof (induction xs)
  case Nil
  show ?case by (simp add: writes_ok)
next
  case (Cons x xs)
  then have x: "pure_m x" and xs: "pure_elems xs"
    by simp_all
  show ?case
    unfolding attach_all_m.simps
    by (rule writes_bind [OF attach_one_writes [OF assms x]])
      (rule writes_bind [OF Cons.IH [OF xs]], simp add: writes_ok)
qed

lemma attach_writes:
  assumes "hlookup sps OPENAPI_TO_GRAPHQL = HRef t"
    and "hlookup tps ''data'' = HRef d" and "distinct (map fst tps)"
    and "d \<in> A" and "d \<noteq> s" and "d \<noteq> t"
    and "getIdentifier info = Inr ident"
    and "pure_m saneData"
  shows "writes (parent_kept s t d sps tps dps ident) A
           (attach_m (HRef s) info record saneData) (\<lambda>r. True)"
proof (cases saneData)
  case (MH v)
  then show ?thesis
    by (simp add: attach_m_def writes_ok)
next
  case (MObj ps)
  with attach_one_writes [OF assms] show ?thesis
    by (simp add: attach_m_def)
next
  case (MArr xs ps)
  with assms(8) have "pure_elems xs"
    by simp
  from attach_all_writes [OF assms(1-7) this] MArr show ?thesis
    by (auto simp add: attach_m_def intro: writes_bind writes_ok)
qed

lemma stored_frame: "stored v h = (r, h') \<Longrightarrow> frame {} h h'"
  by (auto simp add: stored_def split: prod.splits dest: alloc_frame(1))

lemma shape_writes:
  assumes "hlookup sps OPENAPI_TO_GRAPHQL = HRef t"
    and "hlookup tps ''data'' = HRef d" and "distinct (map fst tps)"
    and "d \<in> A" and "d \<noteq> s" and "d \<noteq> t"
    and "getIdentifier info = Inr ident"
    and rd: "target resolveData = {}"
  shows "writes (parent_kept s t d sps tps dps ident) A
           (shape_m D operation opts (HRef s) info resolveData response responseBody)
           (\<lambda>r. True)"
  unfolding shape_m_def
proof (rule writes_bind [OF writes_m_set_inline [OF rd]])
  fix resolveData' :: mval
  have st: "writes (parent_kept s t d sps tps dps ident) A (stored resolveData') (\<lambda>r. True)"
    by (rule writes_step [where B = "{}"])
      (auto intro: parent_kept_stable dest: stored_frame)
  show "writes (parent_kept s t d sps tps dps ident) A
          (hbind (stored resolveData')
             (\<lambda>record. attach_m (HRef s) info record
                          (m_of_val (sanitizeObjectKeys D responseBody (style opts)))))
          (\<lambda>r. True)"
    by (rule writes_bind [OF st]) (rule attach_writes [OF assms(1-7) m_of_val_pure(1)])
qed

lemma handle_response_writes:
  assumes "hlookup sps OPENAPI_TO_GRAPHQL = HRef t"
    and "hlookup tps ''data'' = HRef d" and "distinct (map fst tps)"
    and "d \<in> A" and "d \<noteq> s" and "d \<noteq> t"
    and "getIdentifier info = Inr ident"
    and "target resolveData = {}"
  shows "writes (parent_kept s t d sps tps dps ident) A
           (handle_response_h D operation opts (HRef s) args info resolveData response)
           (\<lambda>r. True)"
proof (cases "classify D operation opts response")
  case (Json responseBody)
  have "writes (parent_kept s t d sps tps dps ident) A
          (hbind (shape_m D operation opts (HRef s) info resolveData response responseBody)
             (\<lambda>saneData. reading (\<lambda>h. bind (args_view args h)
                             (\<lambda>a. apply_limit_m D opts operation a saneData))))
          (\<lambda>r. True)"
    by (rule writes_bind [OF shape_writes [OF assms]]) (simp add: writes_reading)
  with Json show ?thesis
    by (simp add: handle_response_h_def)
qed (simp_all add: handle_response_h_def writes_ok writes_failing)

lemma resolve_writes:
  assumes root: "hlookup sps OPENAPI_TO_GRAPHQL = HRef t"
    and data: "hlookup tps ''data'' = HRef d" and keys: "distinct (map fst tps)"
    and "a \<noteq> s" and "a \<noteq> t" and "a \<noteq> d" and ds: "d \<noteq> s" and dt: "d \<noteq> t"
    and ident: "getIdentifier info = Inr ident"
  shows "writes (parent_kept s t d sps tps dps ident) {a, d}
           (resolve_h D operation argsFromLink payloadName opts baseUrl requestOptions
              (HRef s) (HRef a) context info)
           (\<lambda>r. True)"
  unfolding resolve_h_def
proof (rule writes_bind [where G = "\<lambda>p. target (fst p) = {}"])
  have "stable (parent_kept s t d sps tps dps ident) {a}"
    using assms(4-6) by (intro parent_kept_stable) simp_all
  then show "writes (parent_kept s t d sps tps dps ident) {a, d}
          (prepare_h D operation argsFromLink payloadName opts baseUrl requestOptions
             (HRef s) (HRef a) context info)
          (\<lambda>p. target (fst p) = {})"
    by (intro prepare_writes) simp_all
next
  fix p :: "mval \<times> request"
  assume p: "target (fst p) = {}"
  obtain resolveData req where pq: "p = (resolveData, req)"
    by (cases p)
  with p have rd: "target resolveData = {}"
    by simp
  have "writes (parent_kept s t d sps tps dps ident) {a, d}
          (hbind (reading (\<lambda>h. httpRequest D req context))
             (handle_response_h D operation opts (HRef s) (HRef a) info resolveData))
          (\<lambda>r. True)"
    by (rule writes_bind [where G = "\<lambda>r. True"])
      (simp_all add: writes_reading handle_response_writes [OF root data keys _ ds dt ident rd])
  then show "writes (parent_kept s t d sps tps dps ident) {a, d}
          (case p of (resolveData, req) \<Rightarrow>
             hbind (reading (\<lambda>h. httpRequest D req context))
               (handle_response_h D operation opts (HRef s) (HRef a) info resolveData))
          (\<lambda>r. True)"
    by (simp add: pq)
qed

lemma identifier_differs:
  assumes "getParentIdentifier info = Inr parentIdentifier" and "key_nan (hd info)"
  shows "\<exists>ident. getIdentifier info = Inr ident \<and> ident \<noteq> parentIdentifier"
proof (cases info)
  case Nil
  with assms(1) show ?thesis
    by (simp add: getParentIdentifier_def)
next
  case (Cons k p)
  with assms(1) have p: "getIdentifierRecursive p = Inr parentIdentifier"
    by (simp add: getParentIdentifier_def)
  then obtain k' p' where "p = k' # p'"
    by (cases p) auto
  with Cons assms(2) p
  have "getIdentifier info = Inr (key_string k @ ''/'' @ parentIdentifier)"
    by (simp add: getIdentifier_def)
  then show ?thesis
    by simp
qed

lemma load_in_frame:
  "\<forall>x. al x \<longrightarrow> al' x \<and> cells h' x = cells h x \<Longrightarrow>
   load_in al n h v = Some t \<Longrightarrow> n \<le> m \<Longrightarrow> load_in al' m h' v = Some t"
  "\<forall>x. al x \<longrightarrow> al' x \<and> cells h' x = cells h x \<Longrightarrow>
   load_elems al n h xs = Some ys \<Longrightarrow> n \<le> m \<Longrightarrow> load_elems al' m h' xs = Some ys"
  "\<forall>x. al x \<longrightarrow> al' x \<and> cells h' x = cells h x \<Longrightarrow>
   load_props al n h ps = Some qs \<Longrightarrow> n \<le> m \<Longrightarrow> load_props al' m h' ps = Some qs"
proof (induction al n h v and al n h xs and al n h ps arbitrary: t m and ys m and qs m
    rule: load_in_load_elems_load_props.induct)
  case (7 allowed n h a)
  from "7.prems"(3) obtain m' where m: "m = Suc m'" and le: "n \<le> m'"
    by (cases m) auto
  from "7.prems"(2) have al: "allowed a"
    by (simp split: if_splits)
  with "7.prems"(1) have a': "al' a" and c: "cells h' a = cells h a"
    by simp_all
  show ?case
  proof (cases "cells h a")
    case None
    with "7.prems"(2) al a' c m show ?thesis
      by simp
  next
    case (Some obj)
    show ?thesis
    proof (cases obj)
      case (HObj ps)
      with "7.prems"(2) al Some obtain qs where
        qs: "load_props allowed n h ps = Some qs" and t: "t = VObj qs"
        by auto
      from "7.IH"(1) [OF al Some HObj "7.prems"(1) qs le] t a' c m Some HObj
      show ?thesis
        by simp
    next
      case (HArr xs ps)
      with "7.prems"(2) al Some obtain ys qs where
        ys: "load_elems allowed n h xs = Some ys"
        and qs: "load_props allowed n h ps = Some qs" and t: "t = VArr ys qs"
        by (auto split: option.splits)
      from "7.IH"(2) [OF al Some HArr "7.prems"(1) ys le]
        "7.IH"(3) [OF al Some HArr ys "7.prems"(1) qs le] t a' c m Some HArr
      show ?thesis
        by simp
    qed
  qed
qed (auto split: option.splits)

text \<open>
  C8. The resolver reads the record of the parent through a copy and never writes to
  it. Let the parent result, its \<^verbatim>\<open>_openAPIToGraphQL\<close>, the table \<^verbatim>\<open>data\<close> of records and
  the argument object be four different objects of the heap, let the table hold a
  record under the parent identifier of the path, and let the tree under the record be
  finite and reach neither the argument object nor the table. Let the key of the
  current field be a name and not a number, as every GraphQL field name or alias is.
  Then after the resolver has run, whether it returned or threw, and whatever the
  operation, the options and the response were: every object that existed before the
  call, other than the argument object and the table, is unchanged; the table still
  holds the same record under the parent identifier; the tree under the record is the
  same; and the copy that a resolver of a sibling field recovers from the parent is
  the one recovered before the call. The only writes are those of default values and
  link values into the argument object and of the new record into the table, under
  the identifier of the current field, which differs from the parent identifier.
\<close>

theorem parent_record_unchanged:
  assumes "cells h s = Some (HObj sps)" and "hlookup sps OPENAPI_TO_GRAPHQL = HRef t"
    and "cells h t = Some (HObj tps)" and "hlookup tps ''data'' = HRef d"
    and "distinct (map fst tps)"
    and "cells h d = Some (HObj dps)"
    and "s < next_addr h" and "t < next_addr h" and "d < next_addr h"
    and "a \<noteq> s" and "a \<noteq> t" and "a \<noteq> d" and "d \<noteq> s" and "d \<noteq> t"
    and "getParentIdentifier info = Inr parentIdentifier" and "key_nan (hd info)"
    and "has_key dps parentIdentifier" and "hlookup dps parentIdentifier = parentRecord"
    and "load_in (\<lambda>x. x < next_addr h \<and> x \<noteq> a \<and> x \<noteq> d) (next_addr h) h parentRecord = Some tree"
    and "resolve_h D operation argsFromLink payloadName opts baseUrl requestOptions
           (HRef s) (HRef a) context info h = (result, h')"
  shows "(\<forall>x < next_addr h. x \<noteq> a \<and> x \<noteq> d \<longrightarrow> cells h' x = cells h x)
       \<and> h_in h' parentIdentifier (HRef d) = Inr True
       \<and> h_get h' (HRef d) parentIdentifier = Inr parentRecord
       \<and> load h' parentRecord = Some tree
       \<and> recover_h (HRef s) info h' = recover_h (HRef s) info h"
proof -
  from identifier_differs [OF assms(15,16)] obtain ident where
    ident: "getIdentifier info = Inr ident" and diff: "ident \<noteq> parentIdentifier"
    by blast
  have P: "parent_kept s t d sps tps dps ident h"
    using assms(1,3,6,7,8,9) by (auto simp add: parent_kept_def)
  have "writes (parent_kept s t d sps tps dps ident) {a, d}
          (resolve_h D operation argsFromLink payloadName opts baseUrl requestOptions
             (HRef s) (HRef a) context info) (\<lambda>r. True)"
    using assms(2,4,5,10-14) ident by (rule resolve_writes)
  with P assms(20) have f: "frame {a, d} h h'" and P': "parent_kept s t d sps tps dps ident h'"
    by (auto simp add: writes_def)
  from f have cells_h': "\<forall>x < next_addr h. x \<noteq> a \<and> x \<noteq> d \<longrightarrow> cells h' x = cells h x"
    and le: "next_addr h \<le> next_addr h'"
    by (auto simp add: frame_def)
  from P' obtain dps' where
    s': "cells h' s = Some (HObj sps)" and t': "cells h' t = Some (HObj tps)"
    and d': "cells h' d = Some (HObj dps')"
    and same: "hlookup dps' parentIdentifier = hlookup dps parentIdentifier"
    and has: "has_key dps' parentIdentifier \<longleftrightarrow> has_key dps parentIdentifier"
    using diff by (auto simp add: parent_kept_def)
  have in_h': "h_in h' parentIdentifier (HRef d) = Inr True"
    using d' has assms(17) by simp
  have in_h: "h_in h parentIdentifier (HRef d) = Inr True"
    using assms(6,17) by simp
  have get_h': "h_get h' (HRef d) parentIdentifier = Inr parentRecord"
    using d' same assms(18) by auto
  have get_h: "h_get h (HRef d) parentIdentifier = Inr parentRecord"
    using assms(6,18) by auto
  have load_h': "load h' parentRecord = Some tree"
    unfolding load_def using _ assms(19) le
    by (rule load_in_frame(1)) (use cells_h' in simp)
  have load_h: "load h parentRecord = Some tree"
    unfolding load_def using _ assms(19) order_refl
    by (rule load_in_frame(1)) simp
  have root: "h_get h' (HRef s) OPENAPI_TO_GRAPHQL = Inr (HRef t)"
    "h_get h (HRef s) OPENAPI_TO_GRAPHQL = Inr (HRef t)"
    using s' assms(1,2) by (simp_all add: OPENAPI_TO_GRAPHQL_def)
  have data: "h_get h' (HRef t) ''data'' = Inr (HRef d)" "h_get h (HRef t) ''data'' = Inr (HRef d)"
    using t' assms(3,4) by simp_all
  have "json_copy_h parentRecord h' = json_copy_h parentRecord h"
    using load_h' load_h by (simp add: json_copy_h_def tree_of_def)
  then have rec: "recover_h (HRef s) info h' = recover_h (HRef s) info h"
    using root data in_h' in_h get_h' get_h assms(15) by (simp add: recover_h_def)
  from cells_h' in_h' get_h' load_h' rec show ?thesis
    by simp
qed

theorem parent_record_unchanged_witness:
  "h_get (snd friends_run) (HRef 2) ''users'' = Inr (HRef 3)
   \<and> load (snd friends_run) (HRef 3) =
     Some (VObj [(''usedParams'', VObj [(''limit'', VNum 2)]), (''usedStatusCode'', VStr ''200'')])"
proof -
  have run: "resolve_h (demo_deps users_response) list_users [] None
               (demo_options \<lparr> addLimitArgument := False \<rparr>) [] None
               (HRef 0) (HRef 5) VUndef friends_path parent_heap =
             (fst friends_run, snd friends_run)"
    by (simp add: friends_run_def)
  have tree: "load_in (\<lambda>x. x < next_addr parent_heap \<and> x \<noteq> 5 \<and> x \<noteq> 2)
                (next_addr parent_heap) parent_heap (HRef 3) =
              Some (VObj [(''usedParams'', VObj [(''limit'', VNum 2)]),
                          (''usedStatusCode'', VStr ''200'')])"
    by (simp add: parent_heap_def eval_nat_numeral)
  have parent: "getParentIdentifier friends_path = Inr ''users''"
    by (simp add: getParentIdentifier_def friends_path_def)
  have name: "key_nan (hd friends_path)"
    by (simp add: friends_path_def parseInt_nan_def is_space_def is_digit_def)
  from parent_record_unchanged [where h = parent_heap and s = 0 and t = 1 and d = 2 and a = 5
      and sps = "[(''id'', HNum 1), (''_openAPIToGraphQL'', HRef 1)]"
      and tps = "[(''data'', HRef 2)]" and dps = "[(''users'', HRef 3)]"
      and parentRecord = "HRef 3", OF _ _ _ _ _ _ _ _ _ _ _ _ _ _ parent name _ _ tree run]
  show ?thesis
    by (simp add: parent_heap_def OPENAPI_TO_GRAPHQL_def)
qed

text \<open>
  What that call does write: the table of the parent, which the results of the call
  share, holds the new record under \<^verbatim>\<open>friends/users\<close> beside the record of
  \<^verbatim>\<open>users\<close>.
\<close>

lemma friends_run_table:
  "cells (snd friends_run) 2 = Some (HObj [(''users'', HRef 3), (''friends/users'', HRef 11)])"
  by code_simp

end
